theory Spec2Isabelle
  imports Main
begin

section \<open>Column labels\<close>

text \<open>
  Both \<^verbatim>\<open>createEmptySheet\<close> (App) and \<^verbatim>\<open>parseExcelFile\<close> (utils/excelUtils.ts) label the
  column with zero-based index \<open>i\<close> by the same loop:
  \<^verbatim>\<open>
    let label = ''; let tempIdx = i;
    while (tempIdx >= 0) {
      label = String.fromCharCode((tempIdx % 26) + 65) + label;
      tempIdx = Math.floor(tempIdx / 26) - 1;
    }
  \<close>
  The index comes from \<^verbatim>\<open>Array.from({ length: n }, (_, i) => ...)\<close>, so it is a
  non-negative integer below \<open>2^32\<close>, where the arithmetic of JavaScript numbers is exact;
  \<open>tempIdx\<close> becomes \<open>-1\<close> when the loop ends, so it is an \<open>int\<close>.
\<close>

function columnLabelLoop :: "int \<Rightarrow> string \<Rightarrow> string" where
  "columnLabelLoop tempIdx label =
     (if tempIdx \<ge> 0
      then columnLabelLoop (tempIdx div 26 - 1) (char_of (tempIdx mod 26 + 65) # label)
      else label)"
  by pat_completeness auto
termination
  by (relation "measure (\<lambda>(tempIdx, label). nat (tempIdx + 1))") auto

definition columnLabel :: "nat \<Rightarrow> string" where
  "columnLabel i = columnLabelLoop (int i) []"

definition columnLabels :: "nat \<Rightarrow> string list" where
  "columnLabels n = map columnLabel [0..<n]"

text \<open>
  Modelled from the spec: the repository generates labels and never decodes one, so the
  decoder the label property speaks of is missing. \<open>decodeLabel\<close> reads a label as the
  spec's base-26 letter encoding: \<open>A\<close> to \<open>Z\<close> are the digits 1 to 26, most significant
  first, and the zero-based index is the value less one.
\<close>

definition labelValue :: "string \<Rightarrow> int" where
  "labelValue s = foldl (\<lambda>acc c. acc * 26 + (of_char c - 64)) 0 s"

definition decodeLabel :: "string \<Rightarrow> int" where
  "decodeLabel s = labelValue s - 1"

section \<open>JavaScript values and arrays\<close>

text \<open>
  A cell holds \<^verbatim>\<open>string | number | boolean | null\<close> (types.ts, \<^verbatim>\<open>SheetRow\<close>). The code never
  computes with a number in a cell: it compares it with \<^verbatim>\<open>null\<close> and \<^verbatim>\<open>''\<close> and calls
  \<^verbatim>\<open>toString\<close> on it. So the type of numbers is a parameter \<open>'n\<close>, and the functions that
  print a number take \<^verbatim>\<open>Number.prototype.toString\<close> as the parameter \<open>nts\<close>.
  Strings are compared for equality only.
\<close>

datatype 'n cell_value = VNull | VStr string | VNum 'n | VBool bool

text \<open>
  A row is an object keyed by column label. A key the object does not have reads as
  \<^verbatim>\<open>undefined\<close>, which is \<open>None\<close> here; storing \<^verbatim>\<open>undefined\<close> under a key reads the same.
\<close>

type_synonym 'n SheetRow = "string \<rightharpoonup> 'n cell_value"

datatype error = TypeError | RequestError

text \<open>\<^verbatim>\<open>xs[i]\<close> on an array without holes: \<^verbatim>\<open>undefined\<close> outside \<open>0 .. length - 1\<close>.\<close>

definition js_nth :: "'a list \<Rightarrow> int \<Rightarrow> 'a option" where
  "js_nth xs i = (if 0 \<le> i \<and> i < int (length xs) then Some (xs ! nat i) else None)"

text \<open>
  The array of rows can get holes (a store beyond its end), so its elements are options:
  \<open>None\<close> is a hole, which reads as \<^verbatim>\<open>undefined\<close>.
\<close>

definition js_row :: "'a option list \<Rightarrow> int \<Rightarrow> 'a option" where
  "js_row xs i = (case js_nth xs i of None \<Rightarrow> None | Some x \<Rightarrow> x)"

text \<open>
  \<^verbatim>\<open>xs[i] = v\<close>: inside the array the element is replaced; at or beyond its end the array
  grows, with holes up to \<open>i\<close>. A store at a negative index makes a property that is no
  element of the array (no length, iteration or copy sees it): the elements stay as they are.
\<close>

definition array_set :: "'a option list \<Rightarrow> int \<Rightarrow> 'a \<Rightarrow> 'a option list" where
  "array_set xs i v =
     (if i < 0 then xs
      else if i < int (length xs) then xs[nat i := Some v]
      else xs @ replicate (nat i - length xs) None @ [Some v])"

text \<open>\<^verbatim>\<open>{ ...row }\<close>: the copy of \<^verbatim>\<open>undefined\<close> is the empty object.\<close>

definition spread :: "('k \<rightharpoonup> 'v) option \<Rightarrow> ('k \<rightharpoonup> 'v)" where
  "spread r = (case r of None \<Rightarrow> Map.empty | Some m \<Rightarrow> m)"

text \<open>\<^verbatim>\<open>undefined\<close> used as a property key, or printed in a template, is \<^verbatim>\<open>"undefined"\<close>.\<close>

definition propKey :: "string option \<Rightarrow> string" where
  "propKey k = (case k of None \<Rightarrow> ''undefined'' | Some s \<Rightarrow> s)"

text \<open>\<^verbatim>\<open>val.toString()\<close>; \<^verbatim>\<open>null\<close> has no such method (\<open>None\<close>).\<close>

fun toString :: "('n \<Rightarrow> string) \<Rightarrow> 'n cell_value \<Rightarrow> string option" where
  "toString nts VNull = None"
| "toString nts (VStr s) = Some s"
| "toString nts (VNum n) = Some (nts n)"
| "toString nts (VBool b) = Some (if b then ''true'' else ''false'')"

text \<open>\<^verbatim>\<open>contents.join(sep)\<close>.\<close>

fun join :: "string \<Rightarrow> string list \<Rightarrow> string" where
  "join sep [] = []"
| "join sep [x] = x"
| "join sep (x # y # ys) = x @ sep @ join sep (y # ys)"

text \<open>\<^verbatim>\<open>xs.findIndex(P)\<close>; \<open>None\<close> is the result \<open>-1\<close>.\<close>

fun findIndex :: "('a \<Rightarrow> bool) \<Rightarrow> 'a list \<Rightarrow> nat option" where
  "findIndex P [] = None"
| "findIndex P (x # xs) = (if P x then Some 0 else map_option Suc (findIndex P xs))"

text \<open>\<^verbatim>\<open>xs.splice(idx, 1)\<close>, as the array it leaves.\<close>

definition splice1 :: "nat \<Rightarrow> 'a list \<Rightarrow> 'a list" where
  "splice1 idx xs = take idx xs @ drop (Suc idx) xs"

text \<open>An integer printed in decimal, as a template literal prints a row index.\<close>

function showNat :: "nat \<Rightarrow> string" where
  "showNat n = (if n < 10 then [char_of (48 + n)]
                else showNat (n div 10) @ [char_of (48 + n mod 10)])"
  by pat_completeness auto
termination
  by (relation "measure id") auto

definition showInt :: "int \<Rightarrow> string" where
  "showInt i = (if i < 0 then CHR ''-'' # showNat (nat (- i)) else showNat (nat i))"

text \<open>
  \<^verbatim>\<open>[...new Set(xs)]\<close>: a set keeps its elements in the order they were first added.
\<close>

definition setAdd :: "'a list \<Rightarrow> 'a \<Rightarrow> 'a list" where
  "setAdd acc x = (if x \<in> set acc then acc else acc @ [x])"

definition setOf :: "'a list \<Rightarrow> 'a list" where
  "setOf xs = foldl setAdd [] xs"

section \<open>The data model (types.ts)\<close>

record 'n CellStyle =
  backgroundColor :: "string option"
  color :: "string option"
  fontWeight :: "string option"
  fontStyle :: "string option"
  textDecoration :: "string option"
  fontSize :: "'n option"
  fontFamily :: "string option"
  border :: "string option"
  borderColor :: "string option"
  textAlign :: "string option"
  verticalAlign :: "string option"
  wrapText :: "bool option"
  numberFormat :: "string option"
  precision :: "'n option"

text \<open>The empty object \<^verbatim>\<open>{}\<close> as a style, and \<^verbatim>\<open>{ ...a, ...b }\<close> on styles.\<close>

definition emptyStyle :: "'n CellStyle" where
  "emptyStyle =
     \<lparr>backgroundColor = None, color = None, fontWeight = None, fontStyle = None,
      textDecoration = None, fontSize = None, fontFamily = None, border = None,
      borderColor = None, textAlign = None, verticalAlign = None, wrapText = None,
      numberFormat = None, precision = None\<rparr>"

definition orElse :: "'a option \<Rightarrow> 'a option \<Rightarrow> 'a option" where
  "orElse b a = (case b of None \<Rightarrow> a | Some v \<Rightarrow> Some v)"

definition mergeStyle :: "'n CellStyle \<Rightarrow> 'n CellStyle \<Rightarrow> 'n CellStyle" where
  "mergeStyle a b =
     \<lparr>backgroundColor = orElse (backgroundColor b) (backgroundColor a),
      color = orElse (color b) (color a),
      fontWeight = orElse (fontWeight b) (fontWeight a),
      fontStyle = orElse (fontStyle b) (fontStyle a),
      textDecoration = orElse (textDecoration b) (textDecoration a),
      fontSize = orElse (fontSize b) (fontSize a),
      fontFamily = orElse (fontFamily b) (fontFamily a),
      border = orElse (border b) (border a),
      borderColor = orElse (borderColor b) (borderColor a),
      textAlign = orElse (textAlign b) (textAlign a),
      verticalAlign = orElse (verticalAlign b) (verticalAlign a),
      wrapText = orElse (wrapText b) (wrapText a),
      numberFormat = orElse (numberFormat b) (numberFormat a),
      precision = orElse (precision b) (precision a)\<rparr>"

text \<open>
  Row and column indices are JavaScript numbers that hold integers; \<^verbatim>\<open>moveSelection\<close>
  can produce \<open>-1\<close> on a grid without rows or columns, so they are \<open>int\<close>. A column key
  read from \<^verbatim>\<open>data.columns[c]\<close> is \<^verbatim>\<open>undefined\<close> (\<open>None\<close>) when \<open>c\<close> is no index of the list.
  The field \<^verbatim>\<open>end\<close> of a range is \<open>endPos\<close> here.
\<close>

record CellPosition =
  rowIndex :: int
  colIndex :: int
  colKey :: "string option"

record SelectionRange =
  start :: CellPosition
  endPos :: CellPosition

record 'n SheetData =
  name :: string
  columns :: "string list"
  rows :: "'n SheetRow option list"
  rowHeights :: "(int \<rightharpoonup> 'n) option"
  colWidths :: "(string \<rightharpoonup> 'n) option"
  cellStyles :: "(string \<rightharpoonup> 'n CellStyle) option"
  merges :: "SelectionRange list option"

record 'n Chart =
  chart_data :: "(string \<times> 'n) list"
  chart_type :: string

record 'n Message =
  msgId :: string
  role :: string
  content :: string
  timestamp :: int
  chart :: "'n Chart option"

text \<open>The normalized bounds of a range, as every consumer computes them.\<close>

definition minRow :: "SelectionRange \<Rightarrow> int" where
  "minRow sel = min (rowIndex (start sel)) (rowIndex (endPos sel))"

definition maxRow :: "SelectionRange \<Rightarrow> int" where
  "maxRow sel = max (rowIndex (start sel)) (rowIndex (endPos sel))"

definition minCol :: "SelectionRange \<Rightarrow> int" where
  "minCol sel = min (colIndex (start sel)) (colIndex (endPos sel))"

definition maxCol :: "SelectionRange \<Rightarrow> int" where
  "maxCol sel = max (colIndex (start sel)) (colIndex (endPos sel))"

text \<open>
  The pairs \<open>(r, c)\<close> that the nested loops
  \<^verbatim>\<open>for (r = minR; r <= maxR; r++) for (c = minC; c <= maxC; c++)\<close> visit, in their order.
\<close>

definition rangeCells :: "int \<Rightarrow> int \<Rightarrow> int \<Rightarrow> int \<Rightarrow> (int \<times> int) list" where
  "rangeCells minR maxR minC maxC =
     concat (map (\<lambda>r. map (\<lambda>c. (r, c)) [minC..maxC]) [minR..maxR])"

text \<open>The key of a cell's style: \<^verbatim>\<open>`${r}-${colKey}`\<close>.\<close>

definition cellId :: "int \<Rightarrow> string option \<Rightarrow> string" where
  "cellId r k = showInt r @ ''-'' @ propKey k"

text \<open>\<^verbatim>\<open>sheetData.merges || []\<close>.\<close>

definition mergeList :: "'n SheetData \<Rightarrow> SelectionRange list" where
  "mergeList d = (case merges d of None \<Rightarrow> [] | Some ms \<Rightarrow> ms)"

text \<open>
  The value of the cell in row \<open>r\<close> and column \<open>c\<close>, \<^verbatim>\<open>rows[r]?.[columns[c]]\<close>: it is
  \<open>None\<close> when there is no such row or the row has no such key.
\<close>

definition getCell :: "'n SheetData \<Rightarrow> int \<Rightarrow> int \<Rightarrow> 'n cell_value option" where
  "getCell d r c =
     (case js_row (rows d) r of None \<Rightarrow> None
      | Some row \<Rightarrow> row (propKey (js_nth (columns d) c)))"

section \<open>The application state and the history (App)\<close>

text \<open>
  The state of \<^verbatim>\<open>App\<close> and of \<^verbatim>\<open>ExcelTable\<close> that the handlers below read and write, in
  one record. Every handler is one event: it reads the state of the last render and its
  result is the state of the next one. Where a handler runs other handlers of the same
  render after it has set state, these take the render they read as the argument \<open>render\<close>
  and the state they change as \<open>st\<close>.
\<close>

datatype SelectionMode = CellMode | RowMode | ColMode

record 'n State =
  sheetData :: "'n SheetData"
  history :: "'n SheetData list"
  messages :: "'n Message list"
  isProcessing :: bool
  selection :: "SelectionRange option"
  isAssistantOpen :: bool
  showMergeModal :: bool
  isEditing :: bool
  editingPos :: "CellPosition option"
  editValue :: string
  suggestionFilter :: "string option"
  isMouseDown :: bool
  selectionMode :: "SelectionMode option"
  inputFocused :: bool

text \<open>
  The last field is no React state but the browser's: \<open>inputFocused\<close> says that the edit
  input of \<^verbatim>\<open>ExcelTable\<close> has the focus. The effect of \<^verbatim>\<open>ExcelTable\<close> on \<^verbatim>\<open>isEditing\<close> gives the
  input the focus after the render in which an edit starts; \<^verbatim>\<open>containerRef.current?.focus()\<close>
  takes it away, and then the input's \<^verbatim>\<open>onBlur\<close> runs before \<^verbatim>\<open>focus()\<close> returns.
\<close>

definition DEFAULT_ROWS :: nat where "DEFAULT_ROWS = 50"
definition DEFAULT_COLS :: nat where "DEFAULT_COLS = 20"
definition INITIAL_COL_WIDTH :: "'n::numeral" where "INITIAL_COL_WIDTH = 100"
definition INITIAL_ROW_HEIGHT :: "'n::numeral" where "INITIAL_ROW_HEIGHT = 24"
definition MAX_HISTORY_STEPS :: nat where "MAX_HISTORY_STEPS = 50"

definition createEmptySheet :: "'n::numeral SheetData" where
  "createEmptySheet =
     (let cols = columnLabels DEFAULT_COLS in
      \<lparr>name = ''Sheet1'',
       columns = cols,
       rows = replicate DEFAULT_ROWS (Some (fold (\<lambda>col row. row(col \<mapsto> VNull)) cols Map.empty)),
       rowHeights = Some (fold (\<lambda>i m. m(int i \<mapsto> INITIAL_ROW_HEIGHT)) [0..<DEFAULT_ROWS] Map.empty),
       colWidths = Some (fold (\<lambda>col m. m(col \<mapsto> INITIAL_COL_WIDTH)) cols Map.empty),
       cellStyles = Some Map.empty,
       merges = Some []\<rparr>)"

text \<open>
  \<^verbatim>\<open>updateSheetData\<close> takes the new sheet or a function of the current one. It puts the
  current sheet in front of the history, keeps the first \<open>MAX_HISTORY_STEPS\<close> entries,
  and installs the new sheet.
\<close>

datatype 'n SheetUpdate = NewValue "'n SheetData" | Updater "'n SheetData \<Rightarrow> 'n SheetData"

definition updateSheetData :: "'n State \<Rightarrow> 'n SheetUpdate \<Rightarrow> 'n State" where
  "updateSheetData st newData =
     st\<lparr>history := take MAX_HISTORY_STEPS (sheetData st # history st),
        sheetData := (case newData of Updater f \<Rightarrow> f (sheetData st) | NewValue d \<Rightarrow> d)\<rparr>"

text \<open>
  \<^verbatim>\<open>updateSheetData\<close> as the closure of a render, called on a state that the event has changed
  already: the sheet it puts in front of the history is \<^verbatim>\<open>sheetData\<close> of its render
  (\<^verbatim>\<open>setHistory(prev => [sheetData, ...prev].slice(0, MAX_HISTORY_STEPS))\<close>), and \<^verbatim>\<open>prev\<close> is the
  history as the event has left it. Called first in an event it is \<open>updateSheetData\<close>.
\<close>

definition updateSheetDataFrom :: "'n SheetData \<Rightarrow> 'n State \<Rightarrow> 'n SheetUpdate \<Rightarrow> 'n State" where
  "updateSheetDataFrom renderSheet st newData =
     st\<lparr>history := take MAX_HISTORY_STEPS (renderSheet # history st),
        sheetData := (case newData of Updater f \<Rightarrow> f (sheetData st) | NewValue d \<Rightarrow> d)\<rparr>"

definition handleUndo :: "'n State \<Rightarrow> 'n State" where
  "handleUndo st =
     (case history st of
        [] \<Rightarrow> st
      | previousState # rest \<Rightarrow> st\<lparr>sheetData := previousState, history := rest\<rparr>)"

text \<open>
  A run of events on the history: a mutation through \<^verbatim>\<open>updateSheetData\<close> or an undo. The
  list of live sheets that a run of mutations goes through starts with the first one.
\<close>

datatype 'n HistoryEvent = Mutate "'n SheetUpdate" | Undo

fun historyStep :: "'n State \<Rightarrow> 'n HistoryEvent \<Rightarrow> 'n State" where
  "historyStep st (Mutate u) = updateSheetData st u"
| "historyStep st Undo = handleUndo st"

fun trajectory :: "'n SheetData \<Rightarrow> 'n SheetUpdate list \<Rightarrow> 'n SheetData list" where
  "trajectory d [] = [d]"
| "trajectory d (u # us) =
     d # trajectory (case u of Updater f \<Rightarrow> f d | NewValue d' \<Rightarrow> d') us"

section \<open>Merging cells (App)\<close>

datatype MergeType = Standard | Content

text \<open>
  The \<^verbatim>\<open>content\<close> strategy of \<^verbatim>\<open>executeMerge\<close> visits the cells of the range and pushes the
  text of each value that is neither \<^verbatim>\<open>null\<close> nor \<^verbatim>\<open>''\<close>. A row that is \<^verbatim>\<open>undefined\<close>, or
  a value that is \<^verbatim>\<open>undefined\<close> (it passes both tests and has no \<^verbatim>\<open>toString\<close>), throws.
\<close>

fun pushContents ::
  "('n \<Rightarrow> string) \<Rightarrow> string list \<Rightarrow> 'n SheetRow option list \<Rightarrow> (int \<times> int) list \<Rightarrow>
   string list \<Rightarrow> error + string list" where
  "pushContents nts cols newRows [] contents = Inr contents"
| "pushContents nts cols newRows ((r, c) # rcs) contents =
     (case js_row newRows r of
        None \<Rightarrow> Inl TypeError
      | Some row \<Rightarrow>
          (case row (propKey (js_nth cols c)) of
             None \<Rightarrow> Inl TypeError
           | Some val \<Rightarrow>
               if val \<noteq> VNull \<and> val \<noteq> VStr []
               then (case toString nts val of
                       None \<Rightarrow> Inl TypeError
                     | Some s \<Rightarrow> pushContents nts cols newRows rcs (contents @ [s]))
               else pushContents nts cols newRows rcs contents))"

text \<open>
  The second pair of loops of \<^verbatim>\<open>executeMerge\<close>: every row of the range is copied, and in
  the copy every column of the range gets \<^verbatim>\<open>finalValue\<close> (at the top-left cell) or \<^verbatim>\<open>null\<close>.
\<close>

definition mergedRow ::
  "string list \<Rightarrow> int \<Rightarrow> int \<Rightarrow> int \<Rightarrow> 'n cell_value option \<Rightarrow> int \<Rightarrow> 'n SheetRow \<Rightarrow> 'n SheetRow" where
  "mergedRow cols minR minC maxC finalValue r row =
     fold (\<lambda>c newRow. newRow(propKey (js_nth cols c) :=
             (if r = minR \<and> c = minC then finalValue else Some VNull)))
       [minC..maxC] row"

definition mergedRows ::
  "string list \<Rightarrow> int \<Rightarrow> int \<Rightarrow> int \<Rightarrow> int \<Rightarrow> 'n cell_value option \<Rightarrow>
   'n SheetRow option list \<Rightarrow> 'n SheetRow option list" where
  "mergedRows cols minR maxR minC maxC finalValue rws =
     fold (\<lambda>r newRows. array_set newRows r
             (mergedRow cols minR minC maxC finalValue r (spread (js_row newRows r))))
       [minR..maxR] rws"

definition executeMerge :: "('n \<Rightarrow> string) \<Rightarrow> MergeType \<Rightarrow> 'n State \<Rightarrow> error + 'n State" where
  "executeMerge nts ty st =
     (case selection st of
        None \<Rightarrow> Inr st
      | Some sel \<Rightarrow>
          let d = sheetData st;
              minR = minRow sel; maxR = maxRow sel; minC = minCol sel; maxC = maxCol sel;
              startColKey = js_nth (columns d) minC;
              newRows = rows d
          in case (case ty of
                     Standard \<Rightarrow>
                       (case js_row newRows minR of
                          None \<Rightarrow> Inl TypeError
                        | Some row \<Rightarrow> Inr (row (propKey startColKey)))
                   | Content \<Rightarrow>
                       (case pushContents nts (columns d) newRows
                               (rangeCells minR maxR minC maxC) [] of
                          Inl e \<Rightarrow> Inl e
                        | Inr contents \<Rightarrow> Inr (Some (VStr (join '' '' contents))))) of
               Inl e \<Rightarrow> Inl e
             | Inr finalValue \<Rightarrow>
                 let newRows' = mergedRows (columns d) minR maxR minC maxC finalValue newRows;
                     styles = spread (cellStyles d);
                     newStyles = styles(cellId minR startColKey \<mapsto>
                       (case styles (cellId minR startColKey) of
                          None \<Rightarrow> emptyStyle | Some s \<Rightarrow> s)
                         \<lparr>textAlign := Some ''center'', verticalAlign := Some ''middle''\<rparr>)
                 in Inr ((updateSheetData st
                            (NewValue (d\<lparr>rows := newRows', cellStyles := Some newStyles,
                                         merges := Some (mergeList d @ [sel])\<rparr>)))
                         \<lparr>showMergeModal := False\<rparr>))"

text \<open>A region of the list matches the selection when its normalized bounds are the same.\<close>

definition sameBounds :: "SelectionRange \<Rightarrow> SelectionRange \<Rightarrow> bool" where
  "sameBounds sel m \<longleftrightarrow>
     minRow m = minRow sel \<and> maxRow m = maxRow sel \<and>
     minCol m = minCol sel \<and> maxCol m = maxCol sel"

text \<open>
  The count of \<^verbatim>\<open>handleMergeToggle\<close>: a value that is neither \<^verbatim>\<open>null\<close> nor \<^verbatim>\<open>''\<close> counts,
  \<^verbatim>\<open>undefined\<close> too; a row that is \<^verbatim>\<open>undefined\<close> throws.
\<close>

fun countContents ::
  "string list \<Rightarrow> 'n SheetRow option list \<Rightarrow> (int \<times> int) list \<Rightarrow> nat \<Rightarrow> error + nat" where
  "countContents cols rws [] contentCount = Inr contentCount"
| "countContents cols rws ((r, c) # rcs) contentCount =
     (case js_row rws r of
        None \<Rightarrow> Inl TypeError
      | Some row \<Rightarrow>
          let val = row (propKey (js_nth cols c)) in
          countContents cols rws rcs
            (if val \<noteq> Some VNull \<and> val \<noteq> Some (VStr []) then contentCount + 1
             else contentCount))"

definition handleMergeToggle :: "('n \<Rightarrow> string) \<Rightarrow> 'n State \<Rightarrow> error + 'n State" where
  "handleMergeToggle nts st =
     (case selection st of
        None \<Rightarrow> Inr st
      | Some sel \<Rightarrow>
          let d = sheetData st;
              minR = minRow sel; maxR = maxRow sel; minC = minCol sel; maxC = maxCol sel
          in case findIndex (sameBounds sel) (mergeList d) of
               Some existingMergeIdx \<Rightarrow>
                 Inr (updateSheetData st
                        (NewValue (d\<lparr>merges := Some (splice1 existingMergeIdx (mergeList d))\<rparr>)))
             | None \<Rightarrow>
                 (case countContents (columns d) (rows d) (rangeCells minR maxR minC maxC) 0 of
                    Inl e \<Rightarrow> Inl e
                  | Inr contentCount \<Rightarrow>
                      if contentCount > 1 then Inr (st\<lparr>showMergeModal := True\<rparr>)
                      else executeMerge nts Standard st))"

section \<open>Editing and the keyboard (components/ExcelTable.tsx)\<close>

text \<open>
  \<^verbatim>\<open>data.rows[pos.rowIndex]?.[pos.colKey]?.toString() || ''\<close>: the text of the cell, the
  empty string for a missing row, a missing key and \<^verbatim>\<open>null\<close>.
\<close>

definition cellText :: "('n \<Rightarrow> string) \<Rightarrow> 'n SheetData \<Rightarrow> CellPosition \<Rightarrow> string" where
  "cellText nts d pos =
     (case js_row (rows d) (rowIndex pos) of
        None \<Rightarrow> []
      | Some row \<Rightarrow>
          (case row (propKey (colKey pos)) of
             None \<Rightarrow> []
           | Some v \<Rightarrow> (case toString nts v of None \<Rightarrow> [] | Some s \<Rightarrow> s)))"

text \<open>
  The sheet that \<^verbatim>\<open>handleSaveEdit\<close> writes: \<^verbatim>\<open>{ ...data, rows: newRows }\<close> with
  \<^verbatim>\<open>newRows[pos.rowIndex] = { ...newRows[pos.rowIndex], [pos.colKey]: val }\<close>.
\<close>

definition editedSheet :: "'n SheetData \<Rightarrow> CellPosition \<Rightarrow> string \<Rightarrow> 'n SheetData" where
  "editedSheet d pos val =
     d\<lparr>rows := array_set (rows d) (rowIndex pos)
            ((spread (js_row (rows d) (rowIndex pos)))(propKey (colKey pos) \<mapsto> VStr val))\<rparr>"

text \<open>
  The lines of \<^verbatim>\<open>handleSaveEdit\<close> from the comparison to \<^verbatim>\<open>setSuggestionFilter(null)\<close>: the
  sheet is written, through \<^verbatim>\<open>onDataChange\<close> (which is \<^verbatim>\<open>updateSheetData\<close>), only when the text
  differs from the text of the cell.
\<close>

definition commitEdit ::
  "('n \<Rightarrow> string) \<Rightarrow> 'n State \<Rightarrow> CellPosition \<Rightarrow> string \<Rightarrow> 'n State \<Rightarrow> 'n State" where
  "commitEdit nts render pos val st =
     (let d = sheetData render;
          currentVal = cellText nts d pos;
          st' = (if val \<noteq> currentVal
                 then updateSheetDataFrom d st (NewValue (editedSheet d pos val))
                 else st)
      in st'\<lparr>isEditing := False, editingPos := None, suggestionFilter := None\<rparr>)"

text \<open>
  \<^verbatim>\<open>handleSaveEdit(targetPos?, value?)\<close>: an argument left out is \<open>None\<close>; every call in the
  program leaves both out. Its last statement is \<^verbatim>\<open>containerRef.current?.focus()\<close>. When the
  edit input has the focus, \<open>focusContainer\<close> takes it away and the input's handler
  \<^verbatim>\<open>onBlur={() => !suggestionFilter && handleSaveEdit()}\<close> runs, \<open>handleBlur\<close>: it is a closure
  of the same render, so it reads the same sheet, position and text, and it runs
  \<^verbatim>\<open>handleSaveEdit\<close> again unless the filter is a non-empty string. In that second run the
  input has lost the focus, and \<^verbatim>\<open>focus()\<close> does nothing more.
\<close>

function handleSaveEdit ::
    "('n \<Rightarrow> string) \<Rightarrow> 'n State \<Rightarrow> CellPosition option \<Rightarrow> string option \<Rightarrow> 'n State \<Rightarrow> 'n State"
  and focusContainer :: "('n \<Rightarrow> string) \<Rightarrow> 'n State \<Rightarrow> 'n State \<Rightarrow> 'n State"
  and handleBlur :: "('n \<Rightarrow> string) \<Rightarrow> 'n State \<Rightarrow> 'n State \<Rightarrow> 'n State" where
  "handleSaveEdit nts render targetPos val_arg st =
     (let pos = (case targetPos of Some p \<Rightarrow> Some p | None \<Rightarrow> editingPos render);
          val = (case val_arg of Some v \<Rightarrow> v | None \<Rightarrow> editValue render)
      in case pos of
           None \<Rightarrow> st\<lparr>isEditing := False, editingPos := None\<rparr>
         | Some pos \<Rightarrow> focusContainer nts render (commitEdit nts render pos val st))"
| "focusContainer nts render st =
     (if inputFocused st then handleBlur nts render (st\<lparr>inputFocused := False\<rparr>) else st)"
| "handleBlur nts render st =
     (if suggestionFilter render = None \<or> suggestionFilter render = Some []
      then handleSaveEdit nts render None None st
      else st)"
  by pat_completeness auto
termination
  by (relation "measure (\<lambda>x. case x of
        Inl (nts, render, targetPos, val_arg, st) \<Rightarrow> (if inputFocused st then 4 else 1)
      | Inr (Inl (nts, render, st)) \<Rightarrow> (if inputFocused st then 3 else 0)
      | Inr (Inr (nts, render, st)) \<Rightarrow> (if inputFocused st then 5 else 2))")
    (auto simp: commitEdit_def updateSheetDataFrom_def Let_def)

text \<open>
  \<^verbatim>\<open>moveSelection\<close> reads \<^verbatim>\<open>data\<close> and \<^verbatim>\<open>selection\<close> of the render it was made in and sets the
  selection; without a selection it does nothing. The function gives the selection it leaves.
\<close>

definition moveSelection ::
  "'n SheetData \<Rightarrow> SelectionRange option \<Rightarrow> int \<Rightarrow> int \<Rightarrow> bool \<Rightarrow> SelectionRange option" where
  "moveSelection d sel_opt rowDelta colDelta expand =
     (case sel_opt of
        None \<Rightarrow> None
      | Some sel \<Rightarrow>
          let targetEndR = min (int (length (rows d)) - 1) (max 0 (rowIndex (endPos sel) + rowDelta));
              targetEndC = min (int (length (columns d)) - 1) (max 0 (colIndex (endPos sel) + colDelta));
              targetColKey = js_nth (columns d) targetEndC;
              nextEnd = \<lparr>rowIndex = targetEndR, colIndex = targetEndC, colKey = targetColKey\<rparr>
          in if expand then Some \<lparr>start = start sel, endPos = nextEnd\<rparr>
             else Some \<lparr>start = nextEnd, endPos = nextEnd\<rparr>)"

definition clearedRow :: "string list \<Rightarrow> int \<Rightarrow> int \<Rightarrow> 'n SheetRow \<Rightarrow> 'n SheetRow" where
  "clearedRow cols minC maxC row =
     fold (\<lambda>c newRow. newRow(propKey (js_nth cols c) \<mapsto> VNull)) [minC..maxC] row"

definition clearedRows ::
  "string list \<Rightarrow> int \<Rightarrow> int \<Rightarrow> int \<Rightarrow> int \<Rightarrow> 'n SheetRow option list \<Rightarrow> 'n SheetRow option list" where
  "clearedRows cols minR maxR minC maxC rws =
     fold (\<lambda>r newRows. array_set newRows r (clearedRow cols minC maxC (spread (js_row newRows r))))
       [minR..maxR] rws"

definition clearSelectedContent :: "'n State \<Rightarrow> 'n State" where
  "clearSelectedContent st =
     (case selection st of
        None \<Rightarrow> st
      | Some sel \<Rightarrow>
          let d = sheetData st in
          updateSheetData st
            (NewValue (d\<lparr>rows := clearedRows (columns d) (minRow sel) (maxRow sel)
                                    (minCol sel) (maxCol sel) (rows d)\<rparr>)))"

definition startEditing :: "CellPosition \<Rightarrow> string \<Rightarrow> 'n State \<Rightarrow> 'n State" where
  "startEditing pos initialValue st =
     st\<lparr>editingPos := Some pos, editValue := initialValue, isEditing := True\<rparr>"

text \<open>
  A key event: the key's name, the shift key, and the platform's modifier
  (\<^verbatim>\<open>isMac ? e.metaKey : e.ctrlKey\<close>).
\<close>

record KeyEvent =
  key :: string
  shiftKey :: bool
  modKey :: bool

definition handleKeyDown :: "('n \<Rightarrow> string) \<Rightarrow> KeyEvent \<Rightarrow> 'n State \<Rightarrow> 'n State" where
  "handleKeyDown nts e st =
     (let d = sheetData st; sel_opt = selection st in
      if isEditing st then
        (if key e = ''Escape'' then focusContainer nts st (st\<lparr>isEditing := False\<rparr>)
         else if key e = ''Enter''
           then (handleSaveEdit nts st None None st)\<lparr>selection := moveSelection d sel_opt 1 0 False\<rparr>
         else if key e = ''Tab''
           then (handleSaveEdit nts st None None st)\<lparr>selection := moveSelection d sel_opt 0 1 False\<rparr>
         else st)
      else
        let st' =
          (if \<not> modKey e then
             (if key e = ''ArrowUp'' then st\<lparr>selection := moveSelection d sel_opt (- 1) 0 (shiftKey e)\<rparr>
              else if key e = ''ArrowDown'' then st\<lparr>selection := moveSelection d sel_opt 1 0 (shiftKey e)\<rparr>
              else if key e = ''ArrowLeft'' then st\<lparr>selection := moveSelection d sel_opt 0 (- 1) (shiftKey e)\<rparr>
              else if key e = ''ArrowRight'' then st\<lparr>selection := moveSelection d sel_opt 0 1 (shiftKey e)\<rparr>
              else if key e = ''Enter''
                then (case sel_opt of
                        None \<Rightarrow> st
                      | Some sel \<Rightarrow> startEditing (start sel) (cellText nts d (start sel)) st)
              else if key e = ''Tab'' then st\<lparr>selection := moveSelection d sel_opt 0 1 False\<rparr>
              else if key e = ''Delete'' \<or> key e = ''Backspace'' then clearSelectedContent st
              else if key e = ''Escape'' then st\<lparr>selection := None\<rparr>
              else st)
           else st)
        in if \<not> modKey e \<and> length (key e) = 1 \<and>
              key e \<notin> set [''ArrowUp'', ''ArrowDown'', ''ArrowLeft'', ''ArrowRight'',
                              ''Tab'', ''Enter'', ''Escape'']
           then (case sel_opt of None \<Rightarrow> st' | Some sel \<Rightarrow> startEditing (start sel) (key e) st')
           else st')"

definition handleMouseDown ::
  "('n \<Rightarrow> string) \<Rightarrow> int \<Rightarrow> int \<Rightarrow> string \<Rightarrow> 'n State \<Rightarrow> 'n State" where
  "handleMouseDown nts r c k st =
     (let onOther = (case editingPos st of
                       None \<Rightarrow> False
                     | Some ep \<Rightarrow> rowIndex ep \<noteq> r \<or> colKey ep \<noteq> Some k);
          st1 = (if isEditing st \<and> onOther then handleSaveEdit nts st None None st else st);
          pos = \<lparr>rowIndex = r, colIndex = c, colKey = Some k\<rparr>;
          st2 = st1\<lparr>selection := Some \<lparr>start = pos, endPos = pos\<rparr>,
                    isMouseDown := True, selectionMode := Some CellMode\<rparr>;
          onSame = (case editingPos st of
                      None \<Rightarrow> False
                    | Some ep \<Rightarrow> rowIndex ep = r \<and> colKey ep = Some k)
      in focusContainer nts st
           (if \<not> onSame then st2\<lparr>isEditing := False, editingPos := None\<rparr> else st2))"

section \<open>The assistant (services/geminiService.ts and App)\<close>

text \<open>
  The request to the model is an opaque call: it either fails or gives a response whose
  \<^verbatim>\<open>text\<close> may be missing. \<^verbatim>\<open>JSON.parse\<close> is a parameter of the model, \<open>jsonParse\<close>: it
  throws (\<open>None\<close>) on a text that is no valid JSON, and otherwise gives a value of the shape
  the request's \<^verbatim>\<open>responseSchema\<close> asks for: rows that may be \<^verbatim>\<open>null\<close>, a list of style
  items whose \<^verbatim>\<open>cellId\<close> and \<^verbatim>\<open>style\<close> may be missing, and the optional fields.
\<close>

datatype AIResponse = Rejected | Resolved "string option"

record 'n RawResult =
  raw_updatedRows :: "'n SheetRow option list option"
  raw_updatedStyles :: "(string option \<times> 'n CellStyle option) list option"
  raw_insight :: "string option"
  raw_newColumns :: "string list option"
  raw_chartData :: "(string \<times> 'n) list option"
  raw_chartType :: "string option"

text \<open>
  The two fixed messages, as the bytes of their UTF-8 encoding: the text that stands for
  the insight when the response cannot be parsed, and the text of an answer without insight.
\<close>

definition parseFailureInsight :: string where
  "parseFailureInsight = [
      CHR 0x41, CHR 0x49, CHR 0x20, CHR 0xE5, CHR 0x93, CHR 0x8D, CHR 0xE5,
      CHR 0xBA, CHR 0x94, CHR 0xE8, CHR 0xA7, CHR 0xA3, CHR 0xE6, CHR 0x9E,
      CHR 0x90, CHR 0xE5, CHR 0xA4, CHR 0xB1, CHR 0xE8, CHR 0xB4, CHR 0xA5,
      CHR 0xEF, CHR 0xBC, CHR 0x8C, CHR 0xE8, CHR 0xAF, CHR 0xB7, CHR 0xE7,
      CHR 0xA8, CHR 0x8D, CHR 0xE5, CHR 0x90, CHR 0x8E, CHR 0xE9, CHR 0x87,
      CHR 0x8D, CHR 0xE8, CHR 0xAF, CHR 0x95, CHR 0xE3, CHR 0x80, CHR 0x82]"

definition defaultContent :: string where
  "defaultContent = [
      CHR 0xE5, CHR 0xB7, CHR 0xB2, CHR 0xE5, CHR 0xAE, CHR 0x8C, CHR 0xE6,
      CHR 0x88, CHR 0x90, CHR 0xE6, CHR 0x82, CHR 0xA8, CHR 0xE7, CHR 0x9A,
      CHR 0x84, CHR 0x20, CHR 0x41, CHR 0x49, CHR 0x20, CHR 0xE4, CHR 0xBB,
      CHR 0xBB, CHR 0xE5, CHR 0x8A, CHR 0xA1, CHR 0xE3, CHR 0x80, CHR 0x82]"

text \<open>
  What \<^verbatim>\<open>processWithAI\<close> returns: the parsed value with the \<^verbatim>\<open>null\<close> rows filtered out and
  the style items turned into a map (an item with an empty or missing \<^verbatim>\<open>cellId\<close>, or with
  no \<^verbatim>\<open>style\<close>, is skipped; a later item replaces an earlier one with the same id).
\<close>

record 'n AIProcessingResult =
  updatedRows :: "'n SheetRow option list option"
  updatedStyles :: "(string \<rightharpoonup> 'n CellStyle) option"
  insight :: "string option"
  newColumns :: "string list option"
  chartData :: "(string \<times> 'n) list option"
  chartType :: "string option"

definition styleMapOf ::
  "(string option \<times> 'n CellStyle option) list \<Rightarrow> (string \<rightharpoonup> 'n CellStyle)" where
  "styleMapOf items =
     fold (\<lambda>item styleMap.
             (case item of
                (Some cid, Some style) \<Rightarrow> if cid \<noteq> [] then styleMap(cid \<mapsto> style) else styleMap
              | _ \<Rightarrow> styleMap))
       items Map.empty"

definition processWithAI ::
  "(string \<Rightarrow> 'n RawResult option) \<Rightarrow> AIResponse \<Rightarrow> error + 'n AIProcessingResult" where
  "processWithAI jsonParse response =
     (case response of
        Rejected \<Rightarrow> Inl RequestError
      | Resolved response_text \<Rightarrow>
          let text = (case response_text of
                        None \<Rightarrow> ''{}''
                      | Some t \<Rightarrow> if t = [] then ''{}'' else t)
          in case jsonParse text of
               None \<Rightarrow>
                 Inr \<lparr>updatedRows = None, updatedStyles = None,
                      insight = Some parseFailureInsight, newColumns = None,
                      chartData = None, chartType = None\<rparr>
             | Some parsed \<Rightarrow>
                 Inr \<lparr>updatedRows = map_option (filter (\<lambda>row. row \<noteq> None)) (raw_updatedRows parsed),
                      updatedStyles = map_option styleMapOf (raw_updatedStyles parsed),
                      insight = raw_insight parsed, newColumns = raw_newColumns parsed,
                      chartData = raw_chartData parsed, chartType = raw_chartType parsed\<rparr>)"

text \<open>\<^verbatim>\<open>s || fallback\<close> on an optional string: the fallback for \<^verbatim>\<open>undefined\<close> and for \<^verbatim>\<open>''\<close>.\<close>

definition stringOr :: "string option \<Rightarrow> string \<Rightarrow> string" where
  "stringOr s fallback = (case s of None \<Rightarrow> fallback | Some t \<Rightarrow> if t = [] then fallback else t)"

text \<open>
  \<^verbatim>\<open>runAICommand\<close>, as one event: the sheet it reads is the sheet at the time of the call,
  and \<open>now\<close> is the value of \<^verbatim>\<open>Date.now()\<close> for the message.
\<close>

definition acceptRows :: "'n AIProcessingResult \<Rightarrow> 'n SheetData \<Rightarrow> 'n SheetData \<times> bool" where
  "acceptRows result updatedSheet =
     (case updatedRows result of
        None \<Rightarrow> (updatedSheet, False)
      | Some urows \<Rightarrow>
          let cleanedRows = filter (\<lambda>r. r \<noteq> None) urows in
          if length cleanedRows > 0
          then (updatedSheet\<lparr>rows := cleanedRows,
                   columns := (case newColumns result of
                                 None \<Rightarrow> columns updatedSheet
                               | Some ncs \<Rightarrow> setOf (columns updatedSheet @ ncs))\<rparr>, True)
          else (updatedSheet, False))"

definition acceptStyles :: "'n AIProcessingResult \<Rightarrow> 'n SheetData \<times> bool \<Rightarrow> 'n SheetData \<times> bool" where
  "acceptStyles result acc =
     (case updatedStyles result of
        None \<Rightarrow> acc
      | Some upd \<Rightarrow>
          let updatedSheet = fst acc;
              old = spread (cellStyles updatedSheet);
              mergedStyles = (\<lambda>cid. case upd cid of
                                None \<Rightarrow> old cid
                              | Some style \<Rightarrow>
                                  Some (mergeStyle (case old cid of None \<Rightarrow> emptyStyle | Some s \<Rightarrow> s) style))
          in (updatedSheet\<lparr>cellStyles := Some mergedStyles\<rparr>, True))"

definition runAICommand ::
  "(string \<Rightarrow> 'n RawResult option) \<Rightarrow> AIResponse \<Rightarrow> int \<Rightarrow> 'n State \<Rightarrow> 'n State" where
  "runAICommand jsonParse response now st =
     (let st0 = st\<lparr>isAssistantOpen := True, isProcessing := True\<rparr> in
      case processWithAI jsonParse response of
        Inl e \<Rightarrow> st0\<lparr>isProcessing := False\<rparr>
      | Inr result \<Rightarrow>
          let (updatedSheet, hasChanges) = acceptStyles result (acceptRows result (sheetData st));
              st1 = (if hasChanges then updateSheetData st0 (NewValue updatedSheet) else st0);
              assistantMessage =
                \<lparr>msgId = showInt now, role = ''assistant'',
                 content = stringOr (insight result) defaultContent,
                 timestamp = now,
                 chart = (case chartData result of
                            None \<Rightarrow> None
                          | Some cd \<Rightarrow>
                              if length cd > 0
                              then Some \<lparr>chart_data = cd, chart_type = stringOr (chartType result) ''bar''\<rparr>
                              else None)\<rparr>
          in st1\<lparr>messages := messages st1 @ [assistantMessage], isProcessing := False\<rparr>)"

section \<open>The initial state and example data\<close>

text \<open>The initial values of the \<^verbatim>\<open>useState\<close> hooks of \<^verbatim>\<open>App\<close> and \<^verbatim>\<open>ExcelTable\<close>.\<close>

definition initialState :: "'n::numeral State" where
  "initialState =
     \<lparr>sheetData = createEmptySheet, history = [], messages = [], isProcessing = False,
      selection = None, isAssistantOpen = True, showMergeModal = False,
      isEditing = False, editingPos = None, editValue = [], suggestionFilter = None,
      isMouseDown = False, selectionMode = None, inputFocused = False\<rparr>"

text \<open>A mutation for the examples: it puts one more letter in front of the sheet's name.\<close>

definition renameStep :: "'n SheetData \<Rightarrow> 'n SheetData" where
  "renameStep d = d\<lparr>name := CHR ''x'' # name d\<rparr>"

text \<open>
  A small sheet for the examples: the block A1:B2 holds \<open>A\<close>, \<open>B\<close>, \<^verbatim>\<open>null\<close>, \<open>C\<close>, and the
  selection runs from B2 back to A1.
\<close>

definition cellAt :: "int \<Rightarrow> int \<Rightarrow> string \<Rightarrow> CellPosition" where
  "cellAt r c k = \<lparr>rowIndex = r, colIndex = c, colKey = Some k\<rparr>"

definition exampleSheet :: "nat SheetData" where
  "exampleSheet =
     \<lparr>name = ''Sheet1'', columns = [''A'', ''B'', ''C''],
      rows = [Some [''A'' \<mapsto> VStr ''A'', ''B'' \<mapsto> VStr ''B'', ''C'' \<mapsto> VNum 7],
              Some [''A'' \<mapsto> VNull, ''B'' \<mapsto> VStr ''C'', ''C'' \<mapsto> VBool True],
              Some [''A'' \<mapsto> VStr ''x'', ''B'' \<mapsto> VNull, ''C'' \<mapsto> VNull]],
      rowHeights = None, colWidths = None, cellStyles = None, merges = None\<rparr>"

definition exampleState :: "nat State" where
  "exampleState =
     initialState\<lparr>sheetData := exampleSheet,
                   selection := Some \<lparr>start = cellAt 1 1 ''B'', endPos = cellAt 0 0 ''A''\<rparr>\<rparr>"

text \<open>The example in an edit of the cell at \<open>pos\<close>, with the text typed and the input focused.\<close>

definition editingAt :: "CellPosition \<Rightarrow> string \<Rightarrow> nat State" where
  "editingAt pos buffer =
     exampleState\<lparr>isEditing := True, editingPos := Some pos, editValue := buffer,
                    inputFocused := True\<rparr>"

text \<open>
  In the words of the merge property: the texts of the values of a range that are neither
  \<^verbatim>\<open>null\<close> nor empty, in row-major order.
\<close>

definition contentText :: "('n \<Rightarrow> string) \<Rightarrow> 'n cell_value option \<Rightarrow> string list" where
  "contentText nts v =
     (case v of
        Some (VStr s) \<Rightarrow> if s = [] then [] else [s]
      | Some (VNum n) \<Rightarrow> [nts n]
      | Some (VBool b) \<Rightarrow> [if b then ''true'' else ''false'']
      | _ \<Rightarrow> [])"

definition rangeTexts ::
  "('n \<Rightarrow> string) \<Rightarrow> 'n SheetData \<Rightarrow> int \<Rightarrow> int \<Rightarrow> int \<Rightarrow> int \<Rightarrow> string list" where
  "rangeTexts nts d minR maxR minC maxC =
     concat (map (\<lambda>r. concat (map (\<lambda>c. contentText nts (getCell d r c)) [minC..maxC]))
       [minR..maxR])"

text \<open>The example with two merge regions, the second over the range of its selection.\<close>

definition mergedExample :: "nat State" where
  "mergedExample =
     exampleState\<lparr>sheetData := exampleSheet\<lparr>merges :=
       Some [\<lparr>start = cellAt 5 5 ''F'', endPos = cellAt 5 6 ''G''\<rparr>,
             \<lparr>start = cellAt 0 0 ''A'', endPos = cellAt 1 1 ''B''\<rparr>]\<rparr>\<rparr>"

text \<open>
  A parser for the examples. It knows three response texts: the empty object, an object
  with new column labels only, and an object with a row, a \<^verbatim>\<open>null\<close> row and new column
  labels; it throws on every other text.
\<close>

definition emptyRaw :: "nat RawResult" where
  "emptyRaw =
     \<lparr>raw_updatedRows = None, raw_updatedStyles = None, raw_insight = None,
      raw_newColumns = None, raw_chartData = None, raw_chartType = None\<rparr>"

definition quoted :: "string \<Rightarrow> string" where
  "quoted s = CHR 0x22 # s @ [CHR 0x22]"

definition columnsOnlyText :: string where
  "columnsOnlyText = ''{'' @ quoted ''newColumns'' @ '':['' @ quoted ''X'' @ '']}''"

definition rowsAndColumnsText :: string where
  "rowsAndColumnsText =
     ''{'' @ quoted ''updatedRows'' @ '':[{'' @ quoted ''A'' @ '':'' @ quoted ''1'' @ ''},null],'' @
     quoted ''newColumns'' @ '':['' @ quoted ''A'' @ '','' @ quoted ''X'' @ '','' @ quoted ''X'' @ '']}''"

definition exampleParse :: "string \<Rightarrow> nat RawResult option" where
  "exampleParse s =
     (if s = ''{}'' then Some emptyRaw
      else if s = columnsOnlyText then Some (emptyRaw\<lparr>raw_newColumns := Some [''X'']\<rparr>)
      else if s = rowsAndColumnsText
        then Some (emptyRaw\<lparr>raw_updatedRows := Some [Some [''A'' \<mapsto> VStr ''1''], None],
                            raw_newColumns := Some [''A'', ''X'', ''X'']\<rparr>)
      else None)"

text \<open>Key events for the examples.\<close>

definition shiftRight :: KeyEvent where
  "shiftRight = \<lparr>key = ''ArrowRight'', shiftKey = True, modKey = False\<rparr>"

definition deleteKey :: KeyEvent where
  "deleteKey = \<lparr>key = ''Delete'', shiftKey = False, modKey = False\<rparr>"

text \<open>
  The end-to-end example: on the fresh sheet, a click on A1 and ArrowRight with the shift
  key three times.
\<close>

definition endToEndState :: "nat State" where
  "endToEndState =
     handleKeyDown showNat shiftRight (handleKeyDown showNat shiftRight
       (handleKeyDown showNat shiftRight (handleMouseDown showNat 0 0 ''A'' initialState)))"

section \<open>Properties of the column labels\<close>

declare columnLabelLoop.simps [simp del] showNat.simps [simp del]

declare handleSaveEdit.simps [simp del] focusContainer.simps [simp del] handleBlur.simps [simp del]

lemma columnLabelLoop_value:
  "- 1 \<le> t \<Longrightarrow>
   foldl (\<lambda>acc c. acc * 26 + (of_char c - 64)) 0 (columnLabelLoop t label) =
   foldl (\<lambda>acc c. acc * 26 + (of_char c - 64)) (t + 1) label"
proof (induction t label rule: columnLabelLoop.induct)
  case (1 tempIdx label)
  show ?case
  proof (cases "tempIdx \<ge> 0")
    case True
    have digit: "(of_char (char_of (tempIdx mod 26 + 65) :: char) :: int) = tempIdx mod 26 + 65"
    proof -
      have "0 \<le> tempIdx mod 26" "tempIdx mod 26 < 26" by simp_all
      then have "(tempIdx mod 26 + 65) mod 256 = tempIdx mod 26 + 65" by simp
      then show ?thesis by simp
    qed
    have step: "(tempIdx div 26 - 1 + 1) * 26 + (tempIdx mod 26 + 65 - 64) = tempIdx + 1"
      by simp
    have "- 1 \<le> tempIdx div 26 - 1" using True by simp
    from "1.IH" [OF True this] show ?thesis
      using True by (subst columnLabelLoop.simps) (simp add: digit step)
  next
    case False
    with "1.prems" have "tempIdx = - 1" by simp
    then show ?thesis by (subst columnLabelLoop.simps) simp
  qed
qed

lemma decodeLabel_columnLabel: "decodeLabel (columnLabel i) = int i"
  using columnLabelLoop_value [of "int i" "[]"]
  by (simp add: decodeLabel_def labelValue_def columnLabel_def)

lemma columnLabel_inj: "columnLabel i = columnLabel j \<Longrightarrow> i = j"
proof -
  assume "columnLabel i = columnLabel j"
  then have "decodeLabel (columnLabel i) = decodeLabel (columnLabel j)" by simp
  then show "i = j" by (simp add: decodeLabel_columnLabel)
qed

lemma columnLabel_examples:
  "columnLabel 0 = ''A''" "columnLabel 25 = ''Z''" "columnLabel 26 = ''AA''"
  "columnLabel 701 = ''ZZ''"
  by (simp_all add: columnLabel_def columnLabelLoop.simps char_of_def)

text \<open>
  C1. For every zero-based column index \<open>i\<close>, decoding the generated label gives \<open>i\<close>
  back, distinct indices get distinct labels, and the indices 0, 25, 26 and 701 are
  labelled \<open>A\<close>, \<open>Z\<close>, \<open>AA\<close> and \<open>ZZ\<close>.
\<close>

theorem columnLabel_bijective:
  "decodeLabel (columnLabel i) = int i \<and>
   (columnLabel i = columnLabel j \<longrightarrow> i = j) \<and>
   columnLabel 0 = ''A'' \<and> columnLabel 25 = ''Z'' \<and>
   columnLabel 26 = ''AA'' \<and> columnLabel 701 = ''ZZ''"
  using decodeLabel_columnLabel columnLabel_inj columnLabel_examples by blast

theorem columnLabel_bijective_witness:
  "decodeLabel (columnLabel 27) = 27 \<and> columnLabel 27 = ''AB'' \<and>
   columnLabel 27 \<noteq> columnLabel 1"
  using columnLabel_bijective [of 27 1]
  by (simp add: columnLabel_def columnLabelLoop.simps char_of_def)

section \<open>Properties of the history\<close>

lemma take_append_take: "take n (xs @ take n ys) = take n (xs @ ys)"
  by (induction xs arbitrary: n) (auto simp: take_Cons split: nat.splits)

lemma trajectory_nonempty: "trajectory d us \<noteq> []"
  by (cases us) simp_all

lemma trajectory_length: "length (trajectory d us) = Suc (length us)"
  by (induction us arbitrary: d) simp_all

lemma trajectory_first: "trajectory d us ! 0 = d"
  by (cases us) simp_all

lemma foldl_updateSheetData:
  "length (history st) \<le> MAX_HISTORY_STEPS \<Longrightarrow>
   sheetData (foldl updateSheetData st us) = last (trajectory (sheetData st) us) \<and>
   history (foldl updateSheetData st us) =
     take MAX_HISTORY_STEPS (rev (butlast (trajectory (sheetData st) us)) @ history st)"
proof (induction us arbitrary: st)
  case Nil
  then show ?case by simp
next
  case (Cons u us)
  let ?st = "updateSheetData st u"
  have s: "sheetData ?st = (case u of Updater f \<Rightarrow> f (sheetData st) | NewValue d' \<Rightarrow> d')"
    and h: "history ?st = take MAX_HISTORY_STEPS (sheetData st # history st)"
    by (simp_all add: updateSheetData_def)
  have "length (history ?st) \<le> MAX_HISTORY_STEPS" by (simp add: h)
  from Cons.IH [OF this] show ?case
    by (simp add: s h trajectory_nonempty take_append_take)
qed

lemma undo_funpow:
  "sheetData ((handleUndo ^^ k) st) = (sheetData st # history st) ! min k (length (history st))"
proof (induction k arbitrary: st)
  case 0
  then show ?case by simp
next
  case (Suc k)
  show ?case
  proof (cases "history st")
    case Nil
    then have "handleUndo st = st" by (simp add: handleUndo_def)
    then have "(handleUndo ^^ Suc k) st = (handleUndo ^^ k) st" by (simp add: funpow_swap1)
    then show ?thesis using Suc.IH [of st] Nil by simp
  next
    case (Cons p rest)
    then have "sheetData (handleUndo st) = p" "history (handleUndo st) = rest"
      by (simp_all add: handleUndo_def)
    then show ?thesis using Suc.IH [of "handleUndo st"] Cons by (simp add: funpow_swap1)
  qed
qed


lemma history_after_mutations:
  assumes "history st = []" and "MAX_HISTORY_STEPS \<le> length us"
  shows "sheetData ((handleUndo ^^ k) (foldl updateSheetData st us)) =
         rev (trajectory (sheetData st) us) ! min k MAX_HISTORY_STEPS"
proof -
  let ?t = "trajectory (sheetData st) us"
  let ?st = "foldl updateSheetData st us"
  have len: "length ?t = Suc (length us)" by (rule trajectory_length)
  have ne: "?t \<noteq> []" by (rule trajectory_nonempty)
  have fs: "sheetData ?st = last ?t" and fh: "history ?st = take MAX_HISTORY_STEPS (rev (butlast ?t))"
    using foldl_updateSheetData [of st us] assms(1) by simp_all
  have lh: "length (history ?st) = MAX_HISTORY_STEPS"
    using assms(2) by (simp add: fh len)
  have "rev ?t = rev (butlast ?t @ [last ?t])"
    using ne by simp
  then have eq: "rev ?t = last ?t # rev (butlast ?t)"
    by (simp only: rev_append rev.simps append_Cons append_Nil)
  have "sheetData ?st # history ?st = take (Suc MAX_HISTORY_STEPS) (rev ?t)"
    by (subst eq) (simp add: fs fh)
  then have "(sheetData ?st # history ?st) ! min k MAX_HISTORY_STEPS =
             rev ?t ! min k MAX_HISTORY_STEPS"
    by simp
  then show ?thesis by (simp add: undo_funpow lh)
qed

lemma oldest_unreachable:
  assumes "history st = []" and "MAX_HISTORY_STEPS < length us"
    and "distinct (trajectory (sheetData st) us)"
  shows "sheetData ((handleUndo ^^ k) (foldl updateSheetData st us)) \<noteq> sheetData st"
proof -
  let ?t = "trajectory (sheetData st) us"
  let ?i = "min k MAX_HISTORY_STEPS"
  have len: "length ?t = Suc (length us)" by (rule trajectory_length)
  have i: "?i < length us" using assms(2) by simp
  have "rev ?t ! ?i = ?t ! (length us - ?i)"
    using i by (simp add: rev_nth len)
  moreover have "length us - ?i \<noteq> 0" "length us - ?i < length ?t"
    using i len by arith+
  ultimately have "rev ?t ! ?i \<noteq> ?t ! 0"
    using assms(3) by (simp add: nth_eq_iff_index_eq len)
  then show ?thesis
    using history_after_mutations [of st us k] assms(1,2) by (simp add: trajectory_first)
qed

lemma history_run_bounded:
  "length (history st) \<le> MAX_HISTORY_STEPS \<Longrightarrow>
   length (history (foldl historyStep st evs)) \<le> MAX_HISTORY_STEPS"
proof (induction evs arbitrary: st)
  case Nil
  then show ?case by simp
next
  case (Cons ev evs)
  have "length (history (historyStep st ev)) \<le> MAX_HISTORY_STEPS"
    using Cons.prems
    by (cases ev) (auto simp: updateSheetData_def handleUndo_def split: list.splits)
  from Cons.IH [OF this] show ?case by simp
qed


lemma trajectory_replicate_names:
  "x \<in> set (trajectory d (replicate n (Updater renameStep))) \<Longrightarrow>
   length (name d) \<le> length (name x)"
proof (induction n arbitrary: d)
  case 0
  then show ?case by simp
next
  case (Suc n)
  from Suc.prems have "x = d \<or> x \<in> set (trajectory (renameStep d) (replicate n (Updater renameStep)))"
    by simp
  then show ?case
  proof
    assume "x = d"
    then show ?thesis by simp
  next
    assume "x \<in> set (trajectory (renameStep d) (replicate n (Updater renameStep)))"
    from Suc.IH [OF this] show ?thesis by (simp add: renameStep_def)
  qed
qed

lemma trajectory_replicate_distinct:
  "distinct (trajectory d (replicate n (Updater renameStep)))"
proof (induction n arbitrary: d)
  case 0
  then show ?case by simp
next
  case (Suc n)
  have "d \<notin> set (trajectory (renameStep d) (replicate n (Updater renameStep)))"
  proof
    assume "d \<in> set (trajectory (renameStep d) (replicate n (Updater renameStep)))"
    from trajectory_replicate_names [OF this] show False by (simp add: renameStep_def)
  qed
  then show ?case using Suc.IH [of "renameStep d"] by simp
qed

text \<open>
  C4. The undo history never holds more than \<open>MAX_HISTORY_STEPS = 50\<close> sheets: a mutation
  puts the prior sheet in front and keeps the first 50 entries, and no run of mutations
  and undos from a history within the bound leaves it. After more than 50 mutations from
  an empty history, the history holds exactly 50 sheets and \<open>k\<close> undos install the sheet
  \<open>min k 50\<close> steps back; the sheet that was pushed first is more than 50 steps back, so
  when the sheets the run went through are distinct no number of undos installs it.
\<close>

theorem history_bounded:
  "length (history (updateSheetData st u)) \<le> MAX_HISTORY_STEPS \<and>
   MAX_HISTORY_STEPS = 50 \<and>
   history (updateSheetData st u) = take MAX_HISTORY_STEPS (sheetData st # history st) \<and>
   (length (history st) \<le> MAX_HISTORY_STEPS \<longrightarrow>
      length (history (foldl historyStep st evs)) \<le> MAX_HISTORY_STEPS) \<and>
   (history st = [] \<and> MAX_HISTORY_STEPS < length us \<longrightarrow>
      length (history (foldl updateSheetData st us)) = MAX_HISTORY_STEPS \<and>
      sheetData ((handleUndo ^^ k) (foldl updateSheetData st us)) =
        rev (trajectory (sheetData st) us) ! min k MAX_HISTORY_STEPS \<and>
      (distinct (trajectory (sheetData st) us) \<longrightarrow>
         sheetData ((handleUndo ^^ k) (foldl updateSheetData st us)) \<noteq> sheetData st))"
proof -
  have a: "history (updateSheetData st u) = take MAX_HISTORY_STEPS (sheetData st # history st)"
    by (simp add: updateSheetData_def)
  have b: "length (history (updateSheetData st u)) \<le> MAX_HISTORY_STEPS"
    by (simp add: a)
  have c: "length (history (foldl updateSheetData st us)) = MAX_HISTORY_STEPS"
    if "history st = []" "MAX_HISTORY_STEPS < length us"
    using foldl_updateSheetData [of st us] that by (simp add: trajectory_length)
  show ?thesis
    using a b c history_run_bounded [of st evs] history_after_mutations [of st us k]
      oldest_unreachable [of st us k]
    by (simp add: MAX_HISTORY_STEPS_def)
qed

theorem history_bounded_witness:
  "length (history (foldl updateSheetData (initialState :: nat State)
      (replicate 51 (Updater renameStep)))) = MAX_HISTORY_STEPS \<and>
   sheetData ((handleUndo ^^ 60) (foldl updateSheetData (initialState :: nat State)
      (replicate 51 (Updater renameStep)))) \<noteq> sheetData (initialState :: nat State) \<and>
   length (history (foldl historyStep (initialState :: nat State)
      [Mutate (Updater renameStep), Undo, Undo])) \<le> MAX_HISTORY_STEPS"
proof -
  let ?st = "initialState :: nat State"
  let ?us = "replicate 51 (Updater renameStep) :: nat SheetUpdate list"
  have h: "history ?st = []" by (simp add: initialState_def)
  have b: "length (history ?st) \<le> MAX_HISTORY_STEPS" by (simp add: h)
  have l: "MAX_HISTORY_STEPS < length ?us" by (simp add: MAX_HISTORY_STEPS_def)
  have d: "distinct (trajectory (sheetData ?st) ?us)" by (rule trajectory_replicate_distinct)
  from history_bounded [of ?st "Updater renameStep" "[Mutate (Updater renameStep), Undo, Undo]" ?us 60]
    h b l d
  show ?thesis by blast
qed



section \<open>Properties of arrays and rows\<close>

lemma js_row_array_set:
  "0 \<le> r \<Longrightarrow> js_row (array_set xs r v) i = (if i = r then Some v else js_row xs i)"
proof (cases "r < int (length xs)")
  case True
  assume "0 \<le> r"
  with True have "nat r < length xs" by simp
  then show ?thesis
    using True \<open>0 \<le> r\<close>
    by (cases "i = r") (auto simp: js_row_def js_nth_def array_set_def nth_list_update)
next
  case False
  assume r: "0 \<le> r"
  let ?ys = "xs @ replicate (nat r - length xs) None @ [Some v]"
  have ys: "array_set xs r v = ?ys" using False r by (simp add: array_set_def)
  have nr: "length xs \<le> nat r" using False r by linarith
  have len: "int (length ?ys) = r + 1" using nr r by simp
  show ?thesis
  proof (cases "i = r")
    case True
    have "?ys ! nat r = Some v"
      using nr by (simp add: nth_append)
    then show ?thesis using True r len by (simp add: ys js_row_def js_nth_def)
  next
    case ne: False
    show ?thesis
    proof (cases "0 \<le> i \<and> i < int (length xs)")
      case True
      then have "nat i < length xs" by linarith
      then have "?ys ! nat i = xs ! nat i" by (simp add: nth_append)
      then show ?thesis using True ne False r len by (simp add: ys js_row_def js_nth_def)
    next
      case out: False
      show ?thesis
      proof (cases "0 \<le> i \<and> i < r")
        case True
        then have "length xs \<le> nat i" "nat i - length xs < nat r - length xs"
          using out nr by linarith+
        then have "?ys ! nat i = None" by (simp add: nth_append)
        then show ?thesis using True ne out False r len by (simp add: ys js_row_def js_nth_def)
      next
        case False
        then have "\<not> (0 \<le> i \<and> i < int (length ?ys))" using ne len by linarith
        then have "js_nth ?ys i = None" unfolding js_nth_def by (simp only: if_False)
        moreover have "js_nth xs i = None" using out unfolding js_nth_def by (simp only: if_False)
        ultimately show ?thesis using ne by (simp add: ys js_row_def)
      qed
    qed
  qed
qed

lemma length_array_set:
  "0 \<le> r \<Longrightarrow> r < int (length xs) \<Longrightarrow> length (array_set xs r v) = length xs"
  by (simp add: array_set_def)

lemma fold_array_set_row:
  assumes "distinct rs" and "\<forall>r\<in>set rs. 0 \<le> r"
  shows "js_row (fold (\<lambda>r newRows. array_set newRows r (g r (spread (js_row newRows r)))) rs xs) i =
         (if i \<in> set rs then Some (g i (spread (js_row xs i))) else js_row xs i)"
  using assms
proof (induction rs arbitrary: xs)
  case Nil
  then show ?case by simp
next
  case (Cons r rs)
  let ?xs = "array_set xs r (g r (spread (js_row xs r)))"
  have r: "0 \<le> r" "r \<notin> set rs" using Cons.prems by simp_all
  have "distinct rs" "\<forall>r\<in>set rs. 0 \<le> r" using Cons.prems by simp_all
  from Cons.IH [OF this, of ?xs] show ?case
    using r by (auto simp: js_row_array_set)
qed

lemma fold_array_set_length:
  assumes "\<forall>r\<in>set rs. 0 \<le> r \<and> r < int (length xs)"
  shows "length (fold (\<lambda>r newRows. array_set newRows r (g r (spread (js_row newRows r)))) rs xs) =
         length xs"
  using assms
proof (induction rs arbitrary: xs)
  case Nil
  then show ?case by simp
next
  case (Cons r rs)
  let ?xs = "array_set xs r (g r (spread (js_row xs r)))"
  have l: "length ?xs = length xs" using Cons.prems by (simp add: length_array_set)
  then have "\<forall>r\<in>set rs. 0 \<le> r \<and> r < int (length ?xs)" using Cons.prems by simp
  from Cons.IH [OF this] show ?case by (simp add: l)
qed

lemma fold_assign_other:
  "k \<notin> keyf ` set cs \<Longrightarrow>
   fold (\<lambda>c (newRow :: 'k \<rightharpoonup> 'v). newRow(keyf c := val c)) cs row k = row k"
  by (induction cs arbitrary: row) auto

lemma fold_assign_key:
  "c0 \<in> set cs \<Longrightarrow> inj_on keyf (set cs) \<Longrightarrow>
   fold (\<lambda>c (newRow :: 'k \<rightharpoonup> 'v). newRow(keyf c := val c)) cs row (keyf c0) = val c0"
proof (induction cs arbitrary: row)
  case Nil
  then show ?case by simp
next
  case (Cons c cs)
  have inj: "inj_on keyf (set cs)" using Cons.prems(2) by (simp add: inj_on_def)
  show ?case
  proof (cases "c0 \<in> set cs")
    case True
    from Cons.IH [OF True inj] show ?thesis by simp
  next
    case False
    with Cons.prems(1) have c: "c0 = c" by simp
    have "keyf c0 \<notin> keyf ` set cs"
      using False Cons.prems(2) c by (auto simp: inj_on_def)
    then have "fold (\<lambda>c newRow. newRow(keyf c := val c)) cs (row(keyf c := val c)) (keyf c0) =
               (row(keyf c := val c)) (keyf c0)"
      by (rule fold_assign_other)
    then show ?thesis unfolding c by (simp only: fold_simps fun_upd_same)
  qed
qed

lemma column_key_inj:
  assumes "distinct cols" and "0 \<le> a" and "b < int (length cols)"
  shows "inj_on (\<lambda>c. propKey (js_nth cols c)) {a..b}"
proof (rule inj_onI)
  fix c c'
  assume c: "c \<in> {a..b}" and c': "c' \<in> {a..b}"
    and eq: "propKey (js_nth cols c) = propKey (js_nth cols c')"
  have "cols ! nat c = cols ! nat c'"
    using c c' eq assms(2,3) by (simp add: js_nth_def propKey_def)
  moreover have "nat c < length cols" "nat c' < length cols" using c c' assms(2,3) by auto
  ultimately have "nat c = nat c'" using assms(1) by (simp add: nth_eq_iff_index_eq)
  then show "c = c'" using c c' assms(2) by auto
qed

lemma column_key_outside:
  assumes "distinct cols" and "0 \<le> a" and "b < int (length cols)"
    and "0 \<le> c" and "c < int (length cols)" and "\<not> (a \<le> c \<and> c \<le> b)"
  shows "propKey (js_nth cols c) \<notin> (\<lambda>c. propKey (js_nth cols c)) ` {a..b}"
proof
  assume "propKey (js_nth cols c) \<in> (\<lambda>c. propKey (js_nth cols c)) ` {a..b}"
  then obtain c' where c': "c' \<in> {a..b}" and eq: "propKey (js_nth cols c) = propKey (js_nth cols c')"
    by auto
  have "cols ! nat c = cols ! nat c'"
    using c' eq assms(2-5) by (simp add: js_nth_def propKey_def)
  moreover have "nat c < length cols" "nat c' < length cols" using c' assms(2-5) by auto
  ultimately have "nat c = nat c'" using assms(1) by (simp add: nth_eq_iff_index_eq)
  then have "c = c'" using c' assms(2,4) by auto
  then show False using c' assms(6) by simp
qed

lemma clearedRow_apply:
  "clearedRow cols minC maxC row k =
   (if k \<in> (\<lambda>c. propKey (js_nth cols c)) ` {minC..maxC} then Some VNull else row k)"
proof -
  have "fold (\<lambda>c newRow. newRow(propKey (js_nth cols c) \<mapsto> VNull)) cs row k =
        (if k \<in> (\<lambda>c. propKey (js_nth cols c)) ` set cs then Some VNull else row k)" for cs
    by (induction cs arbitrary: row) auto
  then show ?thesis by (simp add: clearedRow_def)
qed

lemma clearedRows_row:
  "0 \<le> minR \<Longrightarrow>
   js_row (clearedRows cols minR maxR minC maxC rws) r =
   (if minR \<le> r \<and> r \<le> maxR then Some (clearedRow cols minC maxC (spread (js_row rws r)))
    else js_row rws r)"
  unfolding clearedRows_def
  by (subst fold_array_set_row) auto

lemma clearedRows_length:
  "0 \<le> minR \<Longrightarrow> maxR < int (length rws) \<Longrightarrow>
   length (clearedRows cols minR maxR minC maxC rws) = length rws"
  unfolding clearedRows_def
  by (rule fold_array_set_length) auto

lemma clearedRows_getCell:
  assumes "distinct (columns d)" and "0 \<le> minR" and "0 \<le> minC"
    and "maxC < int (length (columns d))" and "0 \<le> c" and "c < int (length (columns d))"
  shows "getCell (d\<lparr>rows := clearedRows (columns d) minR maxR minC maxC (rows d)\<rparr>) r c =
         (if minR \<le> r \<and> r \<le> maxR \<and> minC \<le> c \<and> c \<le> maxC then Some VNull
          else getCell d r c)"
proof (cases "minC \<le> c \<and> c \<le> maxC")
  case True
  then show ?thesis
    using assms(2) by (auto simp: getCell_def clearedRows_row clearedRow_apply split: option.splits)
next
  case False
  from column_key_outside [OF assms(1,3,4,5,6) False]
  show ?thesis
    using False assms(2)
    by (auto simp: getCell_def clearedRows_row clearedRow_apply spread_def split: option.splits)
qed


lemma columnLabels_distinct: "distinct (columnLabels n)"
  unfolding columnLabels_def
  by (simp add: distinct_map inj_on_def) (metis columnLabel_inj)

lemma columnLabels_nth:
  "0 \<le> c \<Longrightarrow> c < int n \<Longrightarrow> js_nth (columnLabels n) c = Some (columnLabel (nat c))"
  by (simp add: js_nth_def columnLabels_def)

lemma columnLabels_length: "length (columnLabels n) = n"
  by (simp add: columnLabels_def)

lemma createEmptySheet_shape:
  "columns (createEmptySheet :: 'n::numeral SheetData) = columnLabels 20"
  "length (rows (createEmptySheet :: 'n::numeral SheetData)) = 50"
  by (simp_all add: createEmptySheet_def Let_def DEFAULT_COLS_def DEFAULT_ROWS_def)

lemma columnLabel_first:
  "columnLabel 0 = ''A''" "columnLabel 1 = ''B''" "columnLabel 2 = ''C''" "columnLabel 3 = ''D''"
  "columnLabel (Suc 0) = ''B''"
  by (simp_all add: columnLabel_def columnLabelLoop.simps char_of_def)

lemma shiftRight_step:
  assumes "\<not> isEditing st" and "sheetData st = (createEmptySheet :: 'n::numeral SheetData)"
    and "selection st = Some \<lparr>start = a, endPos = cellAt 0 c k\<rparr>" and "0 \<le> c" and "c < 19"
  shows "handleKeyDown nts shiftRight st =
         st\<lparr>selection := Some \<lparr>start = a, endPos = cellAt 0 (c + 1) (columnLabel (nat (c + 1)))\<rparr>\<rparr>"
proof -
  have m: "min (int (length (columnLabels 20)) - 1) (c + 1) = c + 1"
    using assms(5) by (simp add: columnLabels_length)
  have n: "js_nth (columnLabels 20) (c + 1) = Some (columnLabel (nat (c + 1)))"
    using assms(4,5) by (simp add: columnLabels_nth)
  show ?thesis
    using assms
    by (simp add: handleKeyDown_def shiftRight_def moveSelection_def Let_def createEmptySheet_shape
        cellAt_def m n)
qed

lemma end_to_end_selection:
  "selection (handleKeyDown nts shiftRight (handleKeyDown nts shiftRight (handleKeyDown nts shiftRight
     (handleMouseDown nts 0 0 ''A'' (initialState :: 'n::numeral State))))) =
   Some \<lparr>start = cellAt 0 0 ''A'', endPos = cellAt 0 3 ''D''\<rparr> \<and>
   \<not> isEditing (handleKeyDown nts shiftRight (handleKeyDown nts shiftRight (handleKeyDown nts shiftRight
     (handleMouseDown nts 0 0 ''A'' (initialState :: 'n::numeral State))))) \<and>
   sheetData (handleKeyDown nts shiftRight (handleKeyDown nts shiftRight (handleKeyDown nts shiftRight
     (handleMouseDown nts 0 0 ''A'' (initialState :: 'n::numeral State))))) = createEmptySheet"
proof -
  let ?s0 = "handleMouseDown nts 0 0 ''A'' (initialState :: 'n State)"
  have s0: "?s0 = initialState\<lparr>selection := Some \<lparr>start = cellAt 0 0 ''A'', endPos = cellAt 0 0 ''A''\<rparr>,
      isMouseDown := True, selectionMode := Some CellMode\<rparr>"
    by (simp add: handleMouseDown_def initialState_def Let_def cellAt_def focusContainer.simps)
  have e: "\<not> isEditing ?s0" "sheetData ?s0 = createEmptySheet"
    "selection ?s0 = Some \<lparr>start = cellAt 0 0 ''A'', endPos = cellAt 0 0 ''A''\<rparr>"
    by (simp_all add: s0) (simp_all add: initialState_def)
  let ?s1 = "handleKeyDown nts shiftRight ?s0"
  have s1: "?s1 = ?s0\<lparr>selection := Some \<lparr>start = cellAt 0 0 ''A'', endPos = cellAt 0 1 ''B''\<rparr>\<rparr>"
    using shiftRight_step [OF e, where nts = nts] by (simp add: columnLabel_first)
  have e1: "\<not> isEditing ?s1" "sheetData ?s1 = createEmptySheet"
    "selection ?s1 = Some \<lparr>start = cellAt 0 0 ''A'', endPos = cellAt 0 1 ''B''\<rparr>"
    unfolding s1 using e by simp_all
  let ?s2 = "handleKeyDown nts shiftRight ?s1"
  have s2: "?s2 = ?s1\<lparr>selection := Some \<lparr>start = cellAt 0 0 ''A'', endPos = cellAt 0 2 ''C''\<rparr>\<rparr>"
    using shiftRight_step [OF e1, where nts = nts] by (simp add: columnLabel_first nat_add_distrib)
  have e2: "\<not> isEditing ?s2" "sheetData ?s2 = createEmptySheet"
    "selection ?s2 = Some \<lparr>start = cellAt 0 0 ''A'', endPos = cellAt 0 2 ''C''\<rparr>"
    unfolding s2 using e1 by simp_all
  let ?s3 = "handleKeyDown nts shiftRight ?s2"
  have s3: "?s3 = ?s2\<lparr>selection := Some \<lparr>start = cellAt 0 0 ''A'', endPos = cellAt 0 3 ''D''\<rparr>\<rparr>"
    using shiftRight_step [OF e2, where nts = nts] by (simp add: columnLabel_first nat_add_distrib)
  show ?thesis unfolding s3 using e2 by simp
qed

lemma handleKeyDown_delete:
  "\<not> isEditing st \<Longrightarrow> \<not> modKey e \<Longrightarrow> key e = ''Delete'' \<or> key e = ''Backspace'' \<Longrightarrow>
   handleKeyDown nts e st = clearSelectedContent st"
  by (auto simp: handleKeyDown_def Let_def)

text \<open>
  C7. With a selection on columns of the grid and no edit going on, Delete or Backspace
  (without the modifier key) sets every cell of the selection's normalized rectangle to
  \<^verbatim>\<open>null\<close> and leaves every other cell as it was; the rows outside the rectangle, the
  name, the column list, the widths, the heights, the styles and the merge regions do not
  change, nor does the number of rows when the rectangle ends inside the grid. The column
  labels are distinct, as the data model has them.
\<close>

theorem clear_selected_content:
  assumes "\<not> isEditing st" and "selection st = Some sel"
    and "key e = ''Delete'' \<or> key e = ''Backspace''" and "\<not> modKey e"
    and "distinct (columns (sheetData st))"
    and "0 \<le> minRow sel"
    and "0 \<le> minCol sel" and "maxCol sel < int (length (columns (sheetData st)))"
  shows
    "(\<forall>r c. 0 \<le> c \<and> c < int (length (columns (sheetData st))) \<longrightarrow>
        getCell (sheetData (handleKeyDown nts e st)) r c =
          (if minRow sel \<le> r \<and> r \<le> maxRow sel \<and> minCol sel \<le> c \<and> c \<le> maxCol sel
           then Some VNull else getCell (sheetData st) r c)) \<and>
     (\<forall>r. \<not> (minRow sel \<le> r \<and> r \<le> maxRow sel) \<longrightarrow>
        js_row (rows (sheetData (handleKeyDown nts e st))) r = js_row (rows (sheetData st)) r) \<and>
     (maxRow sel < int (length (rows (sheetData st))) \<longrightarrow>
        length (rows (sheetData (handleKeyDown nts e st))) = length (rows (sheetData st))) \<and>
     name (sheetData (handleKeyDown nts e st)) = name (sheetData st) \<and>
     columns (sheetData (handleKeyDown nts e st)) = columns (sheetData st) \<and>
     colWidths (sheetData (handleKeyDown nts e st)) = colWidths (sheetData st) \<and>
     rowHeights (sheetData (handleKeyDown nts e st)) = rowHeights (sheetData st) \<and>
     cellStyles (sheetData (handleKeyDown nts e st)) = cellStyles (sheetData st) \<and>
     merges (sheetData (handleKeyDown nts e st)) = merges (sheetData st)"
proof -
  let ?d = "sheetData st"
  let ?rows = "clearedRows (columns ?d) (minRow sel) (maxRow sel) (minCol sel) (maxCol sel) (rows ?d)"
  have k: "handleKeyDown nts e st = clearSelectedContent st"
    using assms(1,3,4) by (simp add: handleKeyDown_delete)
  have d': "sheetData (clearSelectedContent st) = ?d\<lparr>rows := ?rows\<rparr>"
    using assms(2) by (simp add: clearSelectedContent_def updateSheetData_def Let_def)
  have cells: "getCell (?d\<lparr>rows := ?rows\<rparr>) r c =
      (if minRow sel \<le> r \<and> r \<le> maxRow sel \<and> minCol sel \<le> c \<and> c \<le> maxCol sel
       then Some VNull else getCell ?d r c)"
    if "0 \<le> c" "c < int (length (columns ?d))" for r c
    using clearedRows_getCell [OF assms(5,6,7,8) that] .
  have outside: "js_row ?rows r = js_row (rows ?d) r" if "\<not> (minRow sel \<le> r \<and> r \<le> maxRow sel)" for r
    using that assms(6) by (auto simp: clearedRows_row)
  have len: "length ?rows = length (rows ?d)" if "maxRow sel < int (length (rows ?d))"
    using assms(6) that by (rule clearedRows_length)
  show ?thesis
    unfolding k d' using cells outside len by simp
qed

theorem clear_selected_content_witness:
  "getCell (sheetData (handleKeyDown showNat deleteKey exampleState)) 0 0 = Some VNull \<and>
   getCell (sheetData (handleKeyDown showNat deleteKey exampleState)) 1 1 = Some VNull \<and>
   getCell (sheetData (handleKeyDown showNat deleteKey exampleState)) 0 2 = Some (VNum 7) \<and>
   getCell (sheetData (handleKeyDown showNat deleteKey exampleState)) 2 0 = Some (VStr ''x'') \<and>
   columns (sheetData (handleKeyDown showNat deleteKey exampleState)) = [''A'', ''B'', ''C''] \<and>
   selection endToEndState = Some \<lparr>start = cellAt 0 0 ''A'', endPos = cellAt 0 3 ''D''\<rparr> \<and>
   getCell (sheetData (handleKeyDown showNat deleteKey endToEndState)) 0 0 = Some VNull \<and>
   getCell (sheetData (handleKeyDown showNat deleteKey endToEndState)) 0 3 = Some VNull \<and>
   getCell (sheetData (handleKeyDown showNat deleteKey endToEndState)) 0 4 =
     getCell (sheetData endToEndState) 0 4 \<and>
   getCell (sheetData (handleKeyDown showNat deleteKey endToEndState)) 1 0 =
     getCell (sheetData endToEndState) 1 0"
proof -
  have k: "key deleteKey = ''Delete'' \<or> key deleteKey = ''Backspace''" "\<not> modKey deleteKey"
    by (simp_all add: deleteKey_def)
  let ?sel = "\<lparr>start = cellAt 1 1 ''B'', endPos = cellAt 0 0 ''A''\<rparr>"
  have b: "minRow ?sel = 0" "maxRow ?sel = 1" "minCol ?sel = 0" "maxCol ?sel = 1"
    by (simp_all add: minRow_def maxRow_def minCol_def maxCol_def cellAt_def)
  have ex: "\<not> isEditing exampleState" "selection exampleState = Some ?sel"
    "columns (sheetData exampleState) = [''A'', ''B'', ''C'']"
    by (simp_all add: exampleState_def initialState_def exampleSheet_def)
  have small: "(\<forall>r c. 0 \<le> c \<and> c < 3 \<longrightarrow>
        getCell (sheetData (handleKeyDown showNat deleteKey exampleState)) r c =
          (if 0 \<le> r \<and> r \<le> 1 \<and> 0 \<le> c \<and> c \<le> 1
           then Some VNull else getCell (sheetData exampleState) r c)) \<and>
     columns (sheetData (handleKeyDown showNat deleteKey exampleState)) = [''A'', ''B'', ''C'']"
    using clear_selected_content [OF ex(1,2) k, of showNat] by (simp add: b ex(3))
  have g: "getCell (sheetData exampleState) 0 2 = Some (VNum 7)"
    "getCell (sheetData exampleState) 2 0 = Some (VStr ''x'')"
    by (simp_all add: exampleState_def exampleSheet_def getCell_def js_row_def js_nth_def propKey_def)
  let ?fresh = "\<lparr>start = cellAt 0 0 ''A'', endPos = cellAt 0 3 ''D''\<rparr>"
  from end_to_end_selection [of showNat]
  have st: "selection endToEndState = Some ?fresh" "\<not> isEditing endToEndState"
    "sheetData endToEndState = createEmptySheet"
    by (simp_all add: endToEndState_def)
  have b': "minRow ?fresh = 0" "maxRow ?fresh = 0" "minCol ?fresh = 0" "maxCol ?fresh = 3"
    by (simp_all add: minRow_def maxRow_def minCol_def maxCol_def cellAt_def)
  have c: "distinct (columns (sheetData endToEndState))"
    "int (length (columns (sheetData endToEndState))) = 20"
    by (simp_all add: st createEmptySheet_shape columnLabels_distinct columnLabels_length)
  from clear_selected_content [OF st(2,1) k c(1), of showNat]
  have fresh: "\<forall>r c. 0 \<le> c \<and> c < 20 \<longrightarrow>
          getCell (sheetData (handleKeyDown showNat deleteKey endToEndState)) r c =
            (if 0 \<le> r \<and> r \<le> 0 \<and> 0 \<le> c \<and> c \<le> 3 then Some VNull
             else getCell (sheetData endToEndState) r c)"
    by (simp add: b' c(2))
  from small g st(1) fresh show ?thesis by simp
qed

section \<open>Properties of the edit commit\<close>

lemma updateSheetData_first: "updateSheetDataFrom (sheetData st) st u = updateSheetData st u"
  by (simp add: updateSheetDataFrom_def updateSheetData_def)

lemma focusContainer_unfocused: "\<not> inputFocused st \<Longrightarrow> focusContainer nts render st = st"
  by (simp add: focusContainer.simps)

lemma commitEdit_focus: "inputFocused (commitEdit nts render pos val st) = inputFocused st"
  by (simp add: commitEdit_def updateSheetDataFrom_def Let_def)

lemma handleSaveEdit_unfocused:
  "\<not> inputFocused st \<Longrightarrow> editingPos render = Some pos \<Longrightarrow>
   handleSaveEdit nts render None None st = commitEdit nts render pos (editValue render) st"
  by (simp add: handleSaveEdit.simps focusContainer_unfocused commitEdit_focus)

lemma handleSaveEdit_focused:
  assumes "inputFocused st" and "editingPos render = Some pos"
  shows "handleSaveEdit nts render None None st =
         (if suggestionFilter render = None \<or> suggestionFilter render = Some []
          then commitEdit nts render pos (editValue render)
                 ((commitEdit nts render pos (editValue render) st)\<lparr>inputFocused := False\<rparr>)
          else (commitEdit nts render pos (editValue render) st)\<lparr>inputFocused := False\<rparr>)"
proof -
  let ?st = "commitEdit nts render pos (editValue render) st"
  have "handleSaveEdit nts render None None st = focusContainer nts render ?st"
    using assms(2) by (simp add: handleSaveEdit.simps)
  also have "\<dots> = handleBlur nts render (?st\<lparr>inputFocused := False\<rparr>)"
    using assms(1) by (simp add: focusContainer.simps commitEdit_focus)
  also have "\<dots> = (if suggestionFilter render = None \<or> suggestionFilter render = Some []
      then commitEdit nts render pos (editValue render) (?st\<lparr>inputFocused := False\<rparr>)
      else ?st\<lparr>inputFocused := False\<rparr>)"
    using handleSaveEdit_unfocused [of "?st\<lparr>inputFocused := False\<rparr>" render pos nts] assms(2)
    by (simp add: handleBlur.simps)
  finally show ?thesis .
qed

lemma commitEdit_same:
  "val = cellText nts (sheetData render) pos \<Longrightarrow>
   sheetData (commitEdit nts render pos val st) = sheetData st \<and>
   history (commitEdit nts render pos val st) = history st"
  by (simp add: commitEdit_def Let_def)

lemma commitEdit_differs:
  "val \<noteq> cellText nts (sheetData render) pos \<Longrightarrow>
   sheetData (commitEdit nts render pos val st) = editedSheet (sheetData render) pos val \<and>
   history (commitEdit nts render pos val st) =
     take MAX_HISTORY_STEPS (sheetData render # history st)"
  by (simp add: commitEdit_def Let_def updateSheetDataFrom_def)

lemma handleSaveEdit_same:
  assumes "editingPos st = Some pos" and "editValue st = cellText nts (sheetData st) pos"
  shows "sheetData (handleSaveEdit nts st None None st) = sheetData st"
    and "history (handleSaveEdit nts st None None st) = history st"
proof -
  have c: "sheetData (commitEdit nts st pos (editValue st) s) = sheetData s"
    "history (commitEdit nts st pos (editValue st) s) = history s" for s
    using commitEdit_same [OF assms(2), of s] by simp_all
  show "sheetData (handleSaveEdit nts st None None st) = sheetData st"
    and "history (handleSaveEdit nts st None None st) = history st"
    using handleSaveEdit_unfocused [OF _ assms(1), of st nts]
      handleSaveEdit_focused [OF _ assms(1), of st nts]
    by (cases "inputFocused st"; simp add: c)+
qed

lemma handleSaveEdit_differs:
  assumes "editingPos st = Some pos" and "editValue st = val"
    and "val \<noteq> cellText nts (sheetData st) pos"
  shows "sheetData (handleSaveEdit nts st None None st) = editedSheet (sheetData st) pos val"
    and "history (handleSaveEdit nts st None None st) =
           (if inputFocused st \<and> (suggestionFilter st = None \<or> suggestionFilter st = Some [])
            then take MAX_HISTORY_STEPS (sheetData st # take MAX_HISTORY_STEPS (sheetData st # history st))
            else take MAX_HISTORY_STEPS (sheetData st # history st))"
proof -
  have ne: "editValue st \<noteq> cellText nts (sheetData st) pos" using assms(2,3) by simp
  have c: "sheetData (commitEdit nts st pos (editValue st) s) = editedSheet (sheetData st) pos val"
    "history (commitEdit nts st pos (editValue st) s) =
       take MAX_HISTORY_STEPS (sheetData st # history s)" for s
    using commitEdit_differs [OF ne, of s] assms(2) by simp_all
  show "sheetData (handleSaveEdit nts st None None st) = editedSheet (sheetData st) pos val"
    using handleSaveEdit_unfocused [OF _ assms(1), of st nts]
      handleSaveEdit_focused [OF _ assms(1), of st nts]
    by (cases "inputFocused st"; simp add: c)
  show "history (handleSaveEdit nts st None None st) =
           (if inputFocused st \<and> (suggestionFilter st = None \<or> suggestionFilter st = Some [])
            then take MAX_HISTORY_STEPS (sheetData st # take MAX_HISTORY_STEPS (sheetData st # history st))
            else take MAX_HISTORY_STEPS (sheetData st # history st))"
    using handleSaveEdit_unfocused [OF _ assms(1), of st nts]
      handleSaveEdit_focused [OF _ assms(1), of st nts]
    by (cases "inputFocused st"; simp add: c)
qed

lemma cellText_null:
  "js_row (rows d) (rowIndex pos) = Some row \<Longrightarrow> row (propKey (colKey pos)) = Some VNull \<Longrightarrow>
   cellText nts d pos = []"
  by (simp add: cellText_def)

lemma handleKeyDown_commit:
  "isEditing st \<Longrightarrow> key e = ''Enter'' \<or> key e = ''Tab'' \<Longrightarrow>
   sheetData (handleKeyDown nts e st) = sheetData (handleSaveEdit nts st None None st) \<and>
   history (handleKeyDown nts e st) = history (handleSaveEdit nts st None None st)"
  by (auto simp: handleKeyDown_def Let_def)

lemma focusContainer_same:
  assumes "editingPos render = Some pos"
    and "editValue render = cellText nts (sheetData render) pos"
  shows "sheetData (focusContainer nts render st) = sheetData st \<and>
         history (focusContainer nts render st) = history st"
proof (cases "inputFocused st")
  case False
  then show ?thesis by (simp add: focusContainer_unfocused)
next
  case True
  have "handleSaveEdit nts render None None (st\<lparr>inputFocused := False\<rparr>) =
        commitEdit nts render pos (editValue render) (st\<lparr>inputFocused := False\<rparr>)"
    using assms(1) by (simp add: handleSaveEdit_unfocused)
  then show ?thesis
    using True commitEdit_same [OF assms(2), of "st\<lparr>inputFocused := False\<rparr>"]
    by (simp add: focusContainer.simps handleBlur.simps)
qed

lemma handleKeyDown_editing_same:
  assumes "isEditing st" and "editingPos st = Some pos"
    and "editValue st = cellText nts (sheetData st) pos"
  shows "sheetData (handleKeyDown nts e st) = sheetData st \<and>
         history (handleKeyDown nts e st) = history st"
  using assms(1) handleSaveEdit_same [OF assms(2,3)]
    focusContainer_same [OF assms(2,3), of "st\<lparr>isEditing := False\<rparr>"]
  by (simp add: handleKeyDown_def Let_def)

text \<open>
  C6. A commit whose text equals the text of the bound cell (the empty string for a cell
  that holds \<^verbatim>\<open>null\<close>) leaves the sheet and the history as they are, and so does every key
  in such an edit. A commit whose text differs writes the text into the bound cell and puts
  the prior sheet in front of the history: once, or twice when the input has the focus and
  its \<^verbatim>\<open>onBlur\<close> commits again within \<^verbatim>\<open>focus()\<close>. Enter and Tab in an edit commit in this way.
\<close>

theorem commit_writes_only_changes:
  assumes "editingPos st = Some pos" and "editValue st = val"
  shows
    "(val = cellText nts (sheetData st) pos \<longrightarrow>
        sheetData (handleSaveEdit nts st None None st) = sheetData st \<and>
        history (handleSaveEdit nts st None None st) = history st \<and>
        (isEditing st \<longrightarrow>
           sheetData (handleKeyDown nts e st) = sheetData st \<and>
           history (handleKeyDown nts e st) = history st)) \<and>
     (val \<noteq> cellText nts (sheetData st) pos \<longrightarrow>
        sheetData (handleSaveEdit nts st None None st) = editedSheet (sheetData st) pos val \<and>
        history (handleSaveEdit nts st None None st) =
          (if inputFocused st \<and> (suggestionFilter st = None \<or> suggestionFilter st = Some [])
           then take MAX_HISTORY_STEPS
                  (sheetData st # take MAX_HISTORY_STEPS (sheetData st # history st))
           else take MAX_HISTORY_STEPS (sheetData st # history st))) \<and>
     (\<forall>row. js_row (rows (sheetData st)) (rowIndex pos) = Some row \<and>
            row (propKey (colKey pos)) = Some VNull \<longrightarrow>
            cellText nts (sheetData st) pos = []) \<and>
     (isEditing st \<and> (key e = ''Enter'' \<or> key e = ''Tab'') \<longrightarrow>
        sheetData (handleKeyDown nts e st) = sheetData (handleSaveEdit nts st None None st) \<and>
        history (handleKeyDown nts e st) = history (handleSaveEdit nts st None None st))"
proof -
  have same: "sheetData (handleSaveEdit nts st None None st) = sheetData st \<and>
      history (handleSaveEdit nts st None None st) = history st \<and>
      (isEditing st \<longrightarrow>
         sheetData (handleKeyDown nts e st) = sheetData st \<and>
         history (handleKeyDown nts e st) = history st)"
    if "val = cellText nts (sheetData st) pos"
    using that assms handleSaveEdit_same [of st pos nts]
      handleKeyDown_editing_same [of st pos nts e]
    by simp
  have differs: "sheetData (handleSaveEdit nts st None None st) = editedSheet (sheetData st) pos val \<and>
      history (handleSaveEdit nts st None None st) =
        (if inputFocused st \<and> (suggestionFilter st = None \<or> suggestionFilter st = Some [])
         then take MAX_HISTORY_STEPS
                (sheetData st # take MAX_HISTORY_STEPS (sheetData st # history st))
         else take MAX_HISTORY_STEPS (sheetData st # history st))"
    if "val \<noteq> cellText nts (sheetData st) pos"
    using handleSaveEdit_differs [OF assms that] by simp
  show ?thesis
    using same differs cellText_null [where d = "sheetData st" and pos = pos and nts = nts]
      handleKeyDown_commit [where st = st and e = e and nts = nts]
    by blast
qed

lemma showNat_7: "showNat 7 = ''7''"
  by code_simp

lemma exampleState_texts:
  "cellText showNat exampleSheet (cellAt 1 0 ''A'') = []"
  "cellText showNat exampleSheet (cellAt 0 2 ''C'') = ''7''"
  by (simp_all add: cellText_def exampleSheet_def cellAt_def js_row_def js_nth_def propKey_def
      showNat_7)

lemma editingAt_fields:
  "sheetData (editingAt p b) = exampleSheet" "history (editingAt p b) = []"
  "editingPos (editingAt p b) = Some p" "editValue (editingAt p b) = b"
  "isEditing (editingAt p b)" "inputFocused (editingAt p b)"
  "suggestionFilter (editingAt p b) = None"
  by (simp_all add: editingAt_def exampleState_def initialState_def)

theorem commit_writes_only_changes_witness:
  "sheetData (handleSaveEdit showNat (editingAt (cellAt 1 0 ''A'') []) None None
      (editingAt (cellAt 1 0 ''A'') [])) = exampleSheet \<and>
   history (handleSaveEdit showNat (editingAt (cellAt 1 0 ''A'') []) None None
      (editingAt (cellAt 1 0 ''A'') [])) = [] \<and>
   sheetData (handleKeyDown showNat \<lparr>key = ''Enter'', shiftKey = False, modKey = False\<rparr>
      (editingAt (cellAt 0 2 ''C'') ''7'')) = exampleSheet \<and>
   history (handleKeyDown showNat \<lparr>key = ''Escape'', shiftKey = False, modKey = False\<rparr>
      (editingAt (cellAt 0 2 ''C'') ''7'')) = [] \<and>
   history (handleKeyDown showNat \<lparr>key = ''Enter'', shiftKey = False, modKey = False\<rparr>
      (editingAt (cellAt 1 0 ''A'') ''5'')) = [exampleSheet, exampleSheet] \<and>
   history (handleSaveEdit showNat ((editingAt (cellAt 1 0 ''A'') ''5'')\<lparr>inputFocused := False\<rparr>)
      None None ((editingAt (cellAt 1 0 ''A'') ''5'')\<lparr>inputFocused := False\<rparr>)) = [exampleSheet]"
proof -
  let ?enter = "\<lparr>key = ''Enter'', shiftKey = False, modKey = False\<rparr>"
  let ?escape = "\<lparr>key = ''Escape'', shiftKey = False, modKey = False\<rparr>"
  note s = editingAt_fields
  have a: "sheetData (handleSaveEdit showNat (editingAt (cellAt 1 0 ''A'') []) None None
      (editingAt (cellAt 1 0 ''A'') [])) = exampleSheet \<and>
    history (handleSaveEdit showNat (editingAt (cellAt 1 0 ''A'') []) None None
      (editingAt (cellAt 1 0 ''A'') [])) = []"
    using commit_writes_only_changes [where st = "editingAt (cellAt 1 0 ''A'') []"
        and pos = "cellAt 1 0 ''A''" and val = "[]" and nts = showNat and e = ?enter]
    by (simp add: s exampleState_texts)
  have b: "sheetData (handleKeyDown showNat ?enter (editingAt (cellAt 0 2 ''C'') ''7'')) = exampleSheet"
    using commit_writes_only_changes [where st = "editingAt (cellAt 0 2 ''C'') ''7''"
        and pos = "cellAt 0 2 ''C''" and val = "''7''" and nts = showNat and e = ?enter]
    by (simp add: s exampleState_texts)
  have b': "history (handleKeyDown showNat ?escape (editingAt (cellAt 0 2 ''C'') ''7'')) = []"
    using commit_writes_only_changes [where st = "editingAt (cellAt 0 2 ''C'') ''7''"
        and pos = "cellAt 0 2 ''C''" and val = "''7''" and nts = showNat and e = ?escape]
    by (simp add: s exampleState_texts)
  have c: "history (handleKeyDown showNat ?enter (editingAt (cellAt 1 0 ''A'') ''5'')) =
      [exampleSheet, exampleSheet]"
    using commit_writes_only_changes [where st = "editingAt (cellAt 1 0 ''A'') ''5''"
        and pos = "cellAt 1 0 ''A''" and val = "''5''" and nts = showNat and e = ?enter]
    by (simp add: s exampleState_texts MAX_HISTORY_STEPS_def)
  let ?u = "(editingAt (cellAt 1 0 ''A'') ''5'')\<lparr>inputFocused := False\<rparr>"
  have d: "history (handleSaveEdit showNat ?u None None ?u) = [exampleSheet]"
    using commit_writes_only_changes [where st = ?u
        and pos = "cellAt 1 0 ''A''" and val = "''5''" and nts = showNat and e = ?enter]
    by (simp add: s exampleState_texts MAX_HISTORY_STEPS_def)
  from a b b' c d show ?thesis by simp
qed

text \<open>
  C10. A commit that changes the bound cell stores the text as a string, as it was typed:
  after it the bound cell (at a row index that is not negative) holds \<open>VStr val\<close>, never a
  number, a boolean or \<^verbatim>\<open>null\<close>. After every commit the text of the bound cell is the text
  committed.
\<close>

theorem commit_stores_string:
  assumes "editingPos st = Some pos" and "editValue st = val" and "0 \<le> rowIndex pos"
  shows
    "(val \<noteq> cellText nts (sheetData st) pos \<longrightarrow>
        (\<exists>row. js_row (rows (sheetData (handleSaveEdit nts st None None st))) (rowIndex pos) = Some row \<and>
               row (propKey (colKey pos)) = Some (VStr val)) \<and>
        (isEditing st \<and> (key e = ''Enter'' \<or> key e = ''Tab'') \<longrightarrow>
           (\<exists>row. js_row (rows (sheetData (handleKeyDown nts e st))) (rowIndex pos) = Some row \<and>
                  row (propKey (colKey pos)) = Some (VStr val)))) \<and>
     cellText nts (sheetData (handleSaveEdit nts st None None st)) pos = val"
proof (cases "val = cellText nts (sheetData st) pos")
  case True
  then show ?thesis
    using handleSaveEdit_same(1) [of st pos nts] assms(1,2) by simp
next
  case False
  have cell: "\<exists>row. js_row (rows (editedSheet (sheetData st) pos val)) (rowIndex pos) = Some row \<and>
      row (propKey (colKey pos)) = Some (VStr val)"
    using assms(3) by (simp add: editedSheet_def js_row_array_set)
  have written: "cellText nts (editedSheet (sheetData st) pos val) pos = val"
    using assms(3) by (simp add: editedSheet_def js_row_array_set cellText_def)
  show ?thesis
    using handleSaveEdit_differs(1) [OF assms(1,2) False] handleKeyDown_commit [of st e nts]
      cell written False
    by auto
qed

theorem commit_stores_string_witness:
  "(\<exists>row. js_row (rows (sheetData (handleSaveEdit showNat (editingAt (cellAt 1 0 ''A'') ''5'')
        None None (editingAt (cellAt 1 0 ''A'') ''5'')))) 1 = Some row \<and>
      row ''A'' = Some (VStr ''5'')) \<and>
   (\<exists>row. js_row (rows (sheetData (handleKeyDown showNat
        \<lparr>key = ''Enter'', shiftKey = False, modKey = False\<rparr>
        (editingAt (cellAt 1 0 ''A'') ''5'')))) 1 = Some row \<and>
      row ''A'' = Some (VStr ''5'')) \<and>
   cellText showNat (sheetData (handleSaveEdit showNat (editingAt (cellAt 1 0 ''A'') ''5'')
        None None (editingAt (cellAt 1 0 ''A'') ''5''))) (cellAt 1 0 ''A'') = ''5''"
proof -
  note s = editingAt_fields
  have k: "rowIndex (cellAt 1 0 ''A'') = 1" "propKey (colKey (cellAt 1 0 ''A'')) = ''A''"
    by (simp_all add: cellAt_def propKey_def)
  show ?thesis
    using commit_stores_string [where st = "editingAt (cellAt 1 0 ''A'') ''5''"
        and pos = "cellAt 1 0 ''A''" and val = "''5''" and nts = showNat
        and e = "\<lparr>key = ''Enter'', shiftKey = False, modKey = False\<rparr>"]
    by (simp add: s exampleState_texts k)
qed

section \<open>Properties of the merge\<close>

lemma set_rangeCells:
  "set (rangeCells minR maxR minC maxC) = {minR..maxR} \<times> {minC..maxC}"
  by (auto simp: rangeCells_def)

lemma pushContents_defined:
  "\<forall>(r, c)\<in>set rcs. getCell d r c \<noteq> None \<Longrightarrow>
   pushContents nts (columns d) (rows d) rcs contents =
   Inr (contents @ concat (map (\<lambda>(r, c). contentText nts (getCell d r c)) rcs))"
proof (induction rcs arbitrary: contents)
  case Nil
  then show ?case by simp
next
  case (Cons rc rcs)
  obtain r c where rc: "rc = (r, c)" by (cases rc)
  from Cons.prems rc obtain row v where row: "js_row (rows d) r = Some row"
    and v: "row (propKey (js_nth (columns d) c)) = Some v"
    by (auto simp: getCell_def split: option.splits)
  have g: "getCell d r c = Some v" using row v by (simp add: getCell_def)
  have rest: "\<forall>(r, c)\<in>set rcs. getCell d r c \<noteq> None" using Cons.prems by simp
  show ?case
    using Cons.IH [OF rest] row v g rc
    by (cases v) (simp_all add: contentText_def)
qed

lemma rangeTexts_cells:
  "rangeTexts nts d minR maxR minC maxC =
   concat (map (\<lambda>(r, c). contentText nts (getCell d r c)) (rangeCells minR maxR minC maxC))"
proof -
  have "concat (map (\<lambda>r. concat (F r)) rs) = concat (concat (map F rs))"
    for F :: "int \<Rightarrow> string list list" and rs
    by (induction rs) simp_all
  then show ?thesis
    by (simp add: rangeTexts_def rangeCells_def map_concat comp_def)
qed

lemma mergedRow_inside:
  assumes "minC \<le> c" and "c \<le> maxC"
    and "inj_on (\<lambda>c. propKey (js_nth cols c)) {minC..maxC}"
  shows "mergedRow cols minR minC maxC finalValue r row (propKey (js_nth cols c)) =
         (if r = minR \<and> c = minC then finalValue else Some VNull)"
  unfolding mergedRow_def
  using fold_assign_key [where keyf = "\<lambda>c. propKey (js_nth cols c)" and cs = "[minC..maxC]"
      and ?c0.0 = c and val = "\<lambda>c. if r = minR \<and> c = minC then finalValue else Some VNull"
      and row = row] assms
  by simp

lemma mergedRows_row:
  "0 \<le> minR \<Longrightarrow>
   js_row (mergedRows cols minR maxR minC maxC finalValue rws) r =
   (if minR \<le> r \<and> r \<le> maxR
    then Some (mergedRow cols minR minC maxC finalValue r (spread (js_row rws r)))
    else js_row rws r)"
  unfolding mergedRows_def
  by (subst fold_array_set_row) auto

lemma executeMerge_result:
  assumes "selection st = Some sel" and "executeMerge nts ty st = Inr st1"
  shows "selection st1 = Some sel"
    and "mergeList (sheetData st1) = mergeList (sheetData st) @ [sel]"
    and "columns (sheetData st1) = columns (sheetData st)"
    and "history st1 = take MAX_HISTORY_STEPS (sheetData st # history st)"
  using assms
  by (auto simp: executeMerge_def Let_def updateSheetData_def mergeList_def
      split: sum.splits option.splits MergeType.splits)

lemma executeMerge_content:
  assumes "selection st = Some sel"
    and "\<forall>(r, c)\<in>set (rangeCells (minRow sel) (maxRow sel) (minCol sel) (maxCol sel)).
           getCell (sheetData st) r c \<noteq> None"
  shows "\<exists>st'. executeMerge nts Content st = Inr st' \<and>
           rows (sheetData st') =
             mergedRows (columns (sheetData st)) (minRow sel) (maxRow sel) (minCol sel) (maxCol sel)
               (Some (VStr (join '' '' (rangeTexts nts (sheetData st) (minRow sel) (maxRow sel)
                  (minCol sel) (maxCol sel)))))
               (rows (sheetData st)) \<and>
           columns (sheetData st') = columns (sheetData st)"
  using assms(1) pushContents_defined [OF assms(2), of nts "[]"]
  by (simp add: executeMerge_def Let_def updateSheetData_def rangeTexts_cells)


text \<open>
  C3. Merging with the \<^verbatim>\<open>content\<close> strategy, on a selection whose columns are columns of the
  grid and whose cells all have a value or \<^verbatim>\<open>null\<close>, succeeds; the top-left cell of the
  range then holds the texts of the values of the range that are neither \<^verbatim>\<open>null\<close> nor empty,
  in row-major order, joined by single spaces, and every other cell of the range holds
  \<^verbatim>\<open>null\<close>. The column labels are distinct, as the data model has them.
\<close>

theorem merge_content:
  assumes "selection st = Some sel"
    and "distinct (columns (sheetData st))"
    and "0 \<le> minCol sel" and "maxCol sel < int (length (columns (sheetData st)))"
    and "\<forall>r c. minRow sel \<le> r \<and> r \<le> maxRow sel \<and> minCol sel \<le> c \<and> c \<le> maxCol sel \<longrightarrow>
           getCell (sheetData st) r c \<noteq> None"
  shows
    "\<exists>st'. executeMerge nts Content st = Inr st' \<and>
       getCell (sheetData st') (minRow sel) (minCol sel) =
         Some (VStr (join '' '' (rangeTexts nts (sheetData st) (minRow sel) (maxRow sel)
            (minCol sel) (maxCol sel)))) \<and>
       (\<forall>r c. minRow sel \<le> r \<and> r \<le> maxRow sel \<and> minCol sel \<le> c \<and> c \<le> maxCol sel \<and>
              (r \<noteq> minRow sel \<or> c \<noteq> minCol sel) \<longrightarrow>
              getCell (sheetData st') r c = Some VNull)"
proof -
  let ?d = "sheetData st"
  let ?fv = "Some (VStr (join '' '' (rangeTexts nts ?d (minRow sel) (maxRow sel)
      (minCol sel) (maxCol sel))))"
  have le: "minRow sel \<le> maxRow sel" "minCol sel \<le> maxCol sel"
    by (simp_all add: minRow_def maxRow_def minCol_def maxCol_def)
  have defined: "\<forall>(r, c)\<in>set (rangeCells (minRow sel) (maxRow sel) (minCol sel) (maxCol sel)).
      getCell ?d r c \<noteq> None"
    using assms(5) by (auto simp: set_rangeCells)
  from executeMerge_content [OF assms(1) defined, of nts]
  obtain st' where ok: "executeMerge nts Content st = Inr st'"
    and rws: "rows (sheetData st') =
      mergedRows (columns ?d) (minRow sel) (maxRow sel) (minCol sel) (maxCol sel) ?fv (rows ?d)"
    and cols: "columns (sheetData st') = columns ?d"
    by blast
  have "getCell ?d (minRow sel) (minCol sel) \<noteq> None" using assms(5) le by simp
  then have r0: "0 \<le> minRow sel"
    by (auto simp: getCell_def js_row_def js_nth_def split: option.splits if_splits)
  have inj: "inj_on (\<lambda>c. propKey (js_nth (columns ?d) c)) {minCol sel..maxCol sel}"
    using assms(2,3,4) by (rule column_key_inj)
  have cell: "getCell (sheetData st') r c = (if r = minRow sel \<and> c = minCol sel then ?fv else Some VNull)"
    if "minRow sel \<le> r" "r \<le> maxRow sel" "minCol sel \<le> c" "c \<le> maxCol sel" for r c
  proof -
    have "getCell (sheetData st') r c =
          mergedRow (columns ?d) (minRow sel) (minCol sel) (maxCol sel) ?fv r
            (spread (js_row (rows ?d) r)) (propKey (js_nth (columns ?d) c))"
      using that(1,2) r0 by (simp add: getCell_def rws cols mergedRows_row)
    then show ?thesis by (simp only: mergedRow_inside [OF that(3,4) inj])
  qed
  show ?thesis
    using ok cell le by auto
qed

lemma exampleState_fields:
  "selection exampleState = Some \<lparr>start = cellAt 1 1 ''B'', endPos = cellAt 0 0 ''A''\<rparr>"
  "sheetData exampleState = exampleSheet"
  "minRow \<lparr>start = cellAt 1 1 ''B'', endPos = cellAt 0 0 ''A''\<rparr> = 0"
  "maxRow \<lparr>start = cellAt 1 1 ''B'', endPos = cellAt 0 0 ''A''\<rparr> = 1"
  "minCol \<lparr>start = cellAt 1 1 ''B'', endPos = cellAt 0 0 ''A''\<rparr> = 0"
  "maxCol \<lparr>start = cellAt 1 1 ''B'', endPos = cellAt 0 0 ''A''\<rparr> = 1"
  by (simp_all add: exampleState_def initialState_def minRow_def maxRow_def minCol_def
      maxCol_def cellAt_def)

lemma exampleSheet_cells:
  "getCell exampleSheet 0 0 = Some (VStr ''A'')" "getCell exampleSheet 0 1 = Some (VStr ''B'')"
  "getCell exampleSheet 1 0 = Some VNull" "getCell exampleSheet 1 1 = Some (VStr ''C'')"
  by (simp_all add: exampleSheet_def getCell_def js_row_def js_nth_def propKey_def)

lemma exampleSheet_block:
  "0 \<le> r \<and> r \<le> 1 \<and> 0 \<le> c \<and> c \<le> 1 \<Longrightarrow> getCell exampleSheet r c \<noteq> None"
proof -
  assume "0 \<le> r \<and> r \<le> 1 \<and> 0 \<le> c \<and> c \<le> 1"
  then have "(r = 0 \<or> r = 1) \<and> (c = 0 \<or> c = 1)" by auto
  then show ?thesis using exampleSheet_cells by auto
qed

lemma exampleSheet_texts:
  "rangeTexts showNat exampleSheet 0 1 0 1 = [''A'', ''B'', ''C'']"
  by (simp add: rangeTexts_def upto.simps exampleSheet_cells contentText_def)

theorem merge_content_witness:
  "\<exists>st'. executeMerge showNat Content exampleState = Inr st' \<and>
     getCell (sheetData st') 0 0 = Some (VStr ''A B C'') \<and>
     getCell (sheetData st') 0 1 = Some VNull \<and>
     getCell (sheetData st') 1 0 = Some VNull \<and>
     getCell (sheetData st') 1 1 = Some VNull"
proof -
  have "distinct (columns (sheetData exampleState))"
    "maxCol \<lparr>start = cellAt 1 1 ''B'', endPos = cellAt 0 0 ''A''\<rparr>
       < int (length (columns (sheetData exampleState)))"
    by (simp_all add: exampleState_fields) (simp_all add: exampleSheet_def)
  with merge_content [of exampleState "\<lparr>start = cellAt 1 1 ''B'', endPos = cellAt 0 0 ''A''\<rparr>" showNat]
  obtain st' where "executeMerge showNat Content exampleState = Inr st'"
    and "getCell (sheetData st') 0 0 = Some (VStr (join '' '' (rangeTexts showNat exampleSheet 0 1 0 1)))"
    and "\<forall>r c. 0 \<le> r \<and> r \<le> 1 \<and> 0 \<le> c \<and> c \<le> 1 \<and> (r \<noteq> 0 \<or> c \<noteq> 0) \<longrightarrow>
           getCell (sheetData st') r c = Some VNull"
    using exampleSheet_block by (auto simp: exampleState_fields)
  then show ?thesis by (simp add: exampleSheet_texts)
qed

section \<open>Properties of the merge toggle\<close>

lemma findIndex_None: "findIndex P xs = None \<longleftrightarrow> (\<forall>x\<in>set xs. \<not> P x)"
  by (induction xs) auto

lemma findIndex_Some:
  "findIndex P xs = Some i \<Longrightarrow> i < length xs \<and> P (xs ! i) \<and> (\<forall>j<i. \<not> P (xs ! j))"
proof (induction xs arbitrary: i)
  case Nil
  then show ?case by simp
next
  case (Cons x xs)
  show ?case
  proof (cases "P x")
    case True
    with Cons.prems show ?thesis by simp
  next
    case False
    with Cons.prems obtain k where k: "findIndex P xs = Some k" "i = Suc k" by auto
    from Cons.IH [OF k(1)] False k(2) show ?thesis
      by (auto simp: nth_Cons split: nat.splits)
  qed
qed

lemma findIndex_last:
  "\<forall>x\<in>set xs. \<not> P x \<Longrightarrow> P y \<Longrightarrow> findIndex P (xs @ [y]) = Some (length xs)"
  by (induction xs) auto

lemma splice1_last: "splice1 (length xs) (xs @ [y]) = xs"
  by (simp add: splice1_def)

lemma mergeList_update: "mergeList (d\<lparr>merges := Some ms\<rparr>) = ms"
  by (simp add: mergeList_def)

lemma sameBounds_refl: "sameBounds sel sel"
  by (simp add: sameBounds_def)

lemma toggle_existing:
  assumes "selection st = Some sel"
    and "findIndex (sameBounds sel) (mergeList (sheetData st)) = Some idx"
  shows "handleMergeToggle nts st =
         Inr (updateSheetData st
               (NewValue ((sheetData st)\<lparr>merges := Some (splice1 idx (mergeList (sheetData st)))\<rparr>)))"
  using assms by (simp add: handleMergeToggle_def Let_def)

lemma toggle_absent:
  assumes "selection st = Some sel"
    and "findIndex (sameBounds sel) (mergeList (sheetData st)) = None"
  shows "handleMergeToggle nts st =
         (case countContents (columns (sheetData st)) (rows (sheetData st))
                 (rangeCells (minRow sel) (maxRow sel) (minCol sel) (maxCol sel)) 0 of
            Inl e \<Rightarrow> Inl e
          | Inr contentCount \<Rightarrow>
              if contentCount > 1 then Inr (st\<lparr>showMergeModal := True\<rparr>)
              else executeMerge nts Standard st)"
  using assms by (simp add: handleMergeToggle_def Let_def)

lemma toggle_after_merge:
  assumes "selection st = Some sel"
    and "\<forall>m\<in>set (mergeList (sheetData st)). \<not> sameBounds sel m"
    and "executeMerge nts ty st = Inr st1"
  shows "\<exists>st2. handleMergeToggle nts st1 = Inr st2 \<and>
           mergeList (sheetData st2) = mergeList (sheetData st) \<and>
           rows (sheetData st2) = rows (sheetData st1)"
proof -
  from executeMerge_result [OF assms(1,3)]
  have sel1: "selection st1 = Some sel"
    and ms1: "mergeList (sheetData st1) = mergeList (sheetData st) @ [sel]"
    by simp_all
  have "findIndex (sameBounds sel) (mergeList (sheetData st1)) = Some (length (mergeList (sheetData st)))"
    unfolding ms1 using assms(2) sameBounds_refl by (rule findIndex_last)
  from toggle_existing [OF sel1 this, of nts]
  have "handleMergeToggle nts st1 =
        Inr (updateSheetData st1 (NewValue ((sheetData st1)\<lparr>merges := Some (mergeList (sheetData st))\<rparr>)))"
    by (simp only: ms1 splice1_last)
  moreover have "mergeList (sheetData (updateSheetData st1
      (NewValue ((sheetData st1)\<lparr>merges := Some (mergeList (sheetData st))\<rparr>)))) = mergeList (sheetData st)"
    by (simp add: updateSheetData_def mergeList_update)
  moreover have "rows (sheetData (updateSheetData st1
      (NewValue ((sheetData st1)\<lparr>merges := Some (mergeList (sheetData st))\<rparr>)))) = rows (sheetData st1)"
    by (simp add: updateSheetData_def)
  ultimately show ?thesis by blast
qed

lemma toggle_twice:
  assumes "selection st = Some sel"
    and "\<forall>m\<in>set (mergeList (sheetData st)). \<not> sameBounds sel m"
    and "handleMergeToggle nts st = Inr st1"
  shows "\<exists>st2. handleMergeToggle nts st1 = Inr st2 \<and>
           mergeList (sheetData st2) = mergeList (sheetData st)"
proof -
  have none: "findIndex (sameBounds sel) (mergeList (sheetData st)) = None"
    using assms(2) by (simp add: findIndex_None)
  let ?count = "countContents (columns (sheetData st)) (rows (sheetData st))
      (rangeCells (minRow sel) (maxRow sel) (minCol sel) (maxCol sel)) 0"
  from assms(3) toggle_absent [OF assms(1) none, of nts]
  obtain n where n: "?count = Inr n"
    and res: "(if n > 1 then Inr (st\<lparr>showMergeModal := True\<rparr>) else executeMerge nts Standard st) = Inr st1"
    by (cases ?count) simp_all
  show ?thesis
  proof (cases "n > 1")
    case True
    with res have st1: "st1 = st\<lparr>showMergeModal := True\<rparr>" by simp
    have "handleMergeToggle nts st1 = Inr (st1\<lparr>showMergeModal := True\<rparr>)"
      using toggle_absent [of st1 sel nts] assms(1) none n True by (simp add: st1)
    then show ?thesis by (simp add: st1)
  next
    case False
    with res have "executeMerge nts Standard st = Inr st1" by simp
    from toggle_after_merge [OF assms(1,2) this] show ?thesis by blast
  qed
qed

text \<open>
  C2. With a selection whose normalized bounds are those of a region of the merge list,
  \<^verbatim>\<open>handleMergeToggle\<close> takes the first such region out of the list and changes nothing
  else of the sheet: no region is appended and the rows are the same. When no region has
  the selection's bounds, merging (with either strategy) and then toggling gives the merge
  list from before the merge, and the toggle leaves the rows as the merge made them; so
  does toggling twice.
\<close>

theorem merge_toggle_unmerges:
  assumes "selection st = Some sel"
  shows
    "((\<exists>m\<in>set (mergeList (sheetData st)). sameBounds sel m) \<longrightarrow>
        (\<exists>st' idx. handleMergeToggle nts st = Inr st' \<and>
           idx < length (mergeList (sheetData st)) \<and>
           sameBounds sel (mergeList (sheetData st) ! idx) \<and>
           (\<forall>j<idx. \<not> sameBounds sel (mergeList (sheetData st) ! j)) \<and>
           sheetData st' = (sheetData st)\<lparr>merges :=
              Some (take idx (mergeList (sheetData st)) @ drop (Suc idx) (mergeList (sheetData st)))\<rparr> \<and>
           rows (sheetData st') = rows (sheetData st) \<and>
           Suc (length (mergeList (sheetData st'))) = length (mergeList (sheetData st)))) \<and>
     ((\<forall>m\<in>set (mergeList (sheetData st)). \<not> sameBounds sel m) \<longrightarrow>
        (\<forall>st1. executeMerge nts ty st = Inr st1 \<longrightarrow>
           (\<exists>st2. handleMergeToggle nts st1 = Inr st2 \<and>
              mergeList (sheetData st2) = mergeList (sheetData st) \<and>
              rows (sheetData st2) = rows (sheetData st1))) \<and>
        (\<forall>st1. handleMergeToggle nts st = Inr st1 \<longrightarrow>
           (\<exists>st2. handleMergeToggle nts st1 = Inr st2 \<and>
              mergeList (sheetData st2) = mergeList (sheetData st))))"
proof -
  let ?ms = "mergeList (sheetData st)"
  have present: "\<exists>st' idx. handleMergeToggle nts st = Inr st' \<and> idx < length ?ms \<and>
      sameBounds sel (?ms ! idx) \<and> (\<forall>j<idx. \<not> sameBounds sel (?ms ! j)) \<and>
      sheetData st' = (sheetData st)\<lparr>merges := Some (take idx ?ms @ drop (Suc idx) ?ms)\<rparr> \<and>
      rows (sheetData st') = rows (sheetData st) \<and>
      Suc (length (mergeList (sheetData st'))) = length ?ms"
    if "\<exists>m\<in>set ?ms. sameBounds sel m"
  proof -
    from that obtain idx where idx: "findIndex (sameBounds sel) ?ms = Some idx"
      using findIndex_None [of "sameBounds sel" ?ms] by (cases "findIndex (sameBounds sel) ?ms") auto
    from findIndex_Some [OF idx]
    have p: "idx < length ?ms" "sameBounds sel (?ms ! idx)" "\<forall>j<idx. \<not> sameBounds sel (?ms ! j)"
      by simp_all
    let ?st' = "updateSheetData st (NewValue ((sheetData st)\<lparr>merges := Some (splice1 idx ?ms)\<rparr>))"
    have "handleMergeToggle nts st = Inr ?st'" using assms idx by (rule toggle_existing)
    moreover have "sheetData ?st' = (sheetData st)\<lparr>merges := Some (take idx ?ms @ drop (Suc idx) ?ms)\<rparr>"
      by (simp add: updateSheetData_def splice1_def)
    moreover have "rows (sheetData ?st') = rows (sheetData st)"
      by (simp add: updateSheetData_def)
    moreover have "Suc (length (mergeList (sheetData ?st'))) = length ?ms"
      using p(1) by (simp add: updateSheetData_def splice1_def mergeList_def)
    ultimately show ?thesis using p by blast
  qed
  show ?thesis
    using present toggle_after_merge [OF assms, of nts ty] toggle_twice [OF assms, of nts]
    by blast
qed

lemma mergedExample_fields:
  "selection mergedExample = Some \<lparr>start = cellAt 1 1 ''B'', endPos = cellAt 0 0 ''A''\<rparr>"
  "mergeList (sheetData mergedExample) =
     [\<lparr>start = cellAt 5 5 ''F'', endPos = cellAt 5 6 ''G''\<rparr>,
      \<lparr>start = cellAt 0 0 ''A'', endPos = cellAt 1 1 ''B''\<rparr>]"
  "rows (sheetData mergedExample) = rows exampleSheet"
  by (simp_all add: mergedExample_def exampleState_def initialState_def mergeList_def)

theorem merge_toggle_unmerges_witness:
  "(\<exists>st'. handleMergeToggle showNat mergedExample = Inr st' \<and>
      mergeList (sheetData st') = [\<lparr>start = cellAt 5 5 ''F'', endPos = cellAt 5 6 ''G''\<rparr>] \<and>
      rows (sheetData st') = rows exampleSheet) \<and>
   (\<exists>st1 st2. executeMerge showNat Content exampleState = Inr st1 \<and>
      handleMergeToggle showNat st1 = Inr st2 \<and> mergeList (sheetData st2) = [])"
proof -
  let ?sel = "\<lparr>start = cellAt 1 1 ''B'', endPos = cellAt 0 0 ''A''\<rparr>"
  let ?other = "\<lparr>start = cellAt 5 5 ''F'', endPos = cellAt 5 6 ''G''\<rparr>"
  let ?same = "\<lparr>start = cellAt 0 0 ''A'', endPos = cellAt 1 1 ''B''\<rparr>"
  have sb: "sameBounds ?sel ?same" "\<not> sameBounds ?sel ?other"
    by (simp_all add: sameBounds_def minRow_def maxRow_def minCol_def maxCol_def cellAt_def)
  have ex: "\<exists>m\<in>set (mergeList (sheetData mergedExample)). sameBounds ?sel m"
    using sb by (simp add: mergedExample_fields)
  from merge_toggle_unmerges [OF mergedExample_fields(1), of showNat Content] ex
  obtain st' idx where t: "handleMergeToggle showNat mergedExample = Inr st'"
    and i: "idx < length (mergeList (sheetData mergedExample))"
      "sameBounds ?sel (mergeList (sheetData mergedExample) ! idx)"
    and d: "sheetData st' = (sheetData mergedExample)\<lparr>merges :=
              Some (take idx (mergeList (sheetData mergedExample)) @
                    drop (Suc idx) (mergeList (sheetData mergedExample)))\<rparr>"
    and r: "rows (sheetData st') = rows (sheetData mergedExample)"
    by blast
  from i sb have "idx = 1" by (cases idx) (auto simp: mergedExample_fields)
  with d have "mergeList (sheetData st') = [?other]"
    by (simp add: mergeList_update mergedExample_fields)
  with t r have first: "\<exists>st'. handleMergeToggle showNat mergedExample = Inr st' \<and>
      mergeList (sheetData st') = [?other] \<and> rows (sheetData st') = rows exampleSheet"
    by (auto simp: mergedExample_fields)
  have ms: "mergeList (sheetData exampleState) = []"
    by (simp add: exampleState_def exampleSheet_def mergeList_def)
  have "\<forall>(r, c)\<in>set (rangeCells (minRow ?sel) (maxRow ?sel) (minCol ?sel) (maxCol ?sel)).
          getCell (sheetData exampleState) r c \<noteq> None"
    using exampleSheet_block by (auto simp: set_rangeCells exampleState_fields)
  from executeMerge_content [OF exampleState_fields(1) this, of showNat]
  obtain st1 where st1: "executeMerge showNat Content exampleState = Inr st1" by blast
  have no: "\<forall>m\<in>set (mergeList (sheetData exampleState)). \<not> sameBounds ?sel m"
    by (simp add: ms)
  from merge_toggle_unmerges [OF exampleState_fields(1), of showNat Content] st1 no
  obtain st2 where "handleMergeToggle showNat st1 = Inr st2"
    "mergeList (sheetData st2) = mergeList (sheetData exampleState)"
    by blast
  then have "handleMergeToggle showNat st1 = Inr st2" "mergeList (sheetData st2) = []"
    by (simp_all add: ms)
  with st1 first show ?thesis by blast
qed

section \<open>Properties of the assistant's answer\<close>

lemma foldl_setAdd_set: "set (foldl setAdd acc xs) = set acc \<union> set xs"
  by (induction xs arbitrary: acc) (auto simp: setAdd_def)

lemma foldl_setAdd_distinct: "distinct acc \<Longrightarrow> distinct (foldl setAdd acc xs)"
  by (induction xs arbitrary: acc) (auto simp: setAdd_def)

lemma foldl_setAdd_prefix: "\<exists>ys. foldl setAdd acc xs = acc @ ys"
proof (induction xs arbitrary: acc)
  case Nil
  then show ?case by simp
next
  case (Cons x xs)
  from Cons.IH [of "setAdd acc x"] obtain ys where ys: "foldl setAdd (setAdd acc x) xs = setAdd acc x @ ys"
    by blast
  have "setAdd acc x = acc \<or> setAdd acc x = acc @ [x]" by (simp add: setAdd_def)
  then show ?case
  proof
    assume "setAdd acc x = acc"
    with ys have "foldl setAdd acc (x # xs) = acc @ ys" by simp
    then show ?thesis by blast
  next
    assume "setAdd acc x = acc @ [x]"
    with ys have "foldl setAdd acc (x # xs) = acc @ (x # ys)" by simp
    then show ?thesis by blast
  qed
qed

lemma foldl_setAdd_id: "distinct (acc @ xs) \<Longrightarrow> foldl setAdd acc xs = acc @ xs"
  by (induction xs arbitrary: acc) (auto simp: setAdd_def)

lemma setOf_distinct: "distinct (setOf xs)"
  by (simp add: setOf_def foldl_setAdd_distinct)

lemma setOf_set: "set (setOf xs) = set xs"
  by (simp add: setOf_def foldl_setAdd_set)

lemma setOf_append:
  assumes "distinct cols"
  shows "\<exists>ys. setOf (cols @ ncs) = cols @ ys \<and> set ys = set ncs - set cols"
proof -
  have "setOf (cols @ ncs) = foldl setAdd cols ncs"
    using assms foldl_setAdd_id [of "[]" cols] by (simp add: setOf_def)
  then obtain ys where ys: "setOf (cols @ ncs) = cols @ ys"
    using foldl_setAdd_prefix [of cols ncs] by auto
  have "distinct (cols @ ys)" using setOf_distinct [of "cols @ ncs"] ys by simp
  moreover have "set (cols @ ys) = set cols \<union> set ncs" using setOf_set [of "cols @ ncs"] ys by simp
  ultimately have "set ys = set ncs - set cols" by auto
  with ys show ?thesis by blast
qed

lemma acceptStyles_columns:
  "columns (fst (acceptStyles result acc)) = columns (fst acc)"
  by (simp add: acceptStyles_def Let_def split: option.splits)

lemma acceptStyles_changes:
  "snd acc \<Longrightarrow> snd (acceptStyles result acc)"
  by (simp add: acceptStyles_def Let_def split: option.splits)

lemma runAICommand_sheet:
  assumes "processWithAI jsonParse response = Inr result"
  shows "sheetData (runAICommand jsonParse response now st) =
           (if snd (acceptStyles result (acceptRows result (sheetData st)))
            then fst (acceptStyles result (acceptRows result (sheetData st)))
            else sheetData st)"
    and "history (runAICommand jsonParse response now st) =
           (if snd (acceptStyles result (acceptRows result (sheetData st)))
            then take MAX_HISTORY_STEPS (sheetData st # history st)
            else history st)"
    and "messages (runAICommand jsonParse response now st) =
           messages st @
           [\<lparr>msgId = showInt now, role = ''assistant'',
             content = stringOr (insight result) defaultContent, timestamp = now,
             chart = (case chartData result of
                        None \<Rightarrow> None
                      | Some cd \<Rightarrow>
                          if length cd > 0
                          then Some \<lparr>chart_data = cd, chart_type = stringOr (chartType result) ''bar''\<rparr>
                          else None)\<rparr>]"
  using assms
  by (simp_all add: runAICommand_def Let_def updateSheetData_def split: prod.splits)

lemma parse_failure_result:
  assumes "jsonParse (case t of None \<Rightarrow> ''{}'' | Some s \<Rightarrow> if s = [] then ''{}'' else s) = None"
  shows "processWithAI jsonParse (Resolved t) =
         Inr \<lparr>updatedRows = None, updatedStyles = None, insight = Some parseFailureInsight,
              newColumns = None, chartData = None, chartType = None\<rparr>"
  using assms by (simp add: processWithAI_def Let_def)

text \<open>
  C8. When \<^verbatim>\<open>JSON.parse\<close> throws on the text of the response, \<^verbatim>\<open>processWithAI\<close> returns the
  result that holds only the fixed insight, and \<^verbatim>\<open>runAICommand\<close> leaves the sheet and the
  history as they are and adds one assistant message with that insight and no chart.
\<close>

theorem parse_failure_no_mutation:
  assumes "jsonParse (case t of None \<Rightarrow> ''{}'' | Some s \<Rightarrow> if s = [] then ''{}'' else s) = None"
  shows
    "processWithAI jsonParse (Resolved t) =
       Inr \<lparr>updatedRows = None, updatedStyles = None, insight = Some parseFailureInsight,
            newColumns = None, chartData = None, chartType = None\<rparr> \<and>
     sheetData (runAICommand jsonParse (Resolved t) now st) = sheetData st \<and>
     history (runAICommand jsonParse (Resolved t) now st) = history st \<and>
     messages (runAICommand jsonParse (Resolved t) now st) =
       messages st @ [\<lparr>msgId = showInt now, role = ''assistant'', content = parseFailureInsight,
                        timestamp = now, chart = None\<rparr>]"
proof -
  have r: "processWithAI jsonParse (Resolved t) =
         Inr \<lparr>updatedRows = None, updatedStyles = None, insight = Some parseFailureInsight,
              newColumns = None, chartData = None, chartType = None\<rparr>"
    using assms by (rule parse_failure_result [where jsonParse = jsonParse and t = t])
  have "parseFailureInsight \<noteq> []" by (simp add: parseFailureInsight_def)
  then show ?thesis
    using runAICommand_sheet [OF r, of now st]
    by (simp add: r acceptRows_def acceptStyles_def stringOr_def)
qed

theorem parse_failure_no_mutation_witness:
  "sheetData (runAICommand exampleParse (Resolved (Some ''not json'')) 0 exampleState) = exampleSheet \<and>
   history (runAICommand exampleParse (Resolved (Some ''not json'')) 0 exampleState) = [] \<and>
   map content (messages (runAICommand exampleParse (Resolved (Some ''not json'')) 0 exampleState)) =
     [parseFailureInsight]"
  using parse_failure_no_mutation [of exampleParse "Some ''not json''" 0 exampleState]
  by (simp add: exampleParse_def columnsOnlyText_def rowsAndColumnsText_def quoted_def
      exampleState_def initialState_def)


lemma acceptRows_accepted:
  assumes "updatedRows result = Some urows" and "filter (\<lambda>r. r \<noteq> None) urows \<noteq> []"
  shows "snd (acceptRows result d)"
    and "columns (fst (acceptRows result d)) =
           (case newColumns result of None \<Rightarrow> columns d | Some ncs \<Rightarrow> setOf (columns d @ ncs))"
    and "rows (fst (acceptRows result d)) = filter (\<lambda>r. r \<noteq> None) urows"
  using assms by (simp_all add: acceptRows_def Let_def)

lemma acceptRows_rejected:
  assumes "updatedRows result = None \<or>
           (\<exists>urows. updatedRows result = Some urows \<and> filter (\<lambda>r. r \<noteq> None) urows = [])"
  shows "acceptRows result d = (d, False)"
  using assms by (auto simp: acceptRows_def Let_def)

lemma runAICommand_columns_accepted:
  assumes "processWithAI jsonParse response = Inr result" and "newColumns result = Some ncs"
    and "updatedRows result = Some urows" and "filter (\<lambda>r. r \<noteq> None) urows \<noteq> []"
  shows "columns (sheetData (runAICommand jsonParse response now st)) =
         setOf (columns (sheetData st) @ ncs)"
proof -
  let ?acc = "acceptRows result (sheetData st)"
  have "snd (acceptStyles result ?acc)"
    using acceptRows_accepted(1) [OF assms(3,4)] by (rule acceptStyles_changes)
  then have "sheetData (runAICommand jsonParse response now st) = fst (acceptStyles result ?acc)"
    using runAICommand_sheet(1) [OF assms(1)] by simp
  then show ?thesis
    using acceptRows_accepted(2) [OF assms(3,4), of "sheetData st"] assms(2)
    by (simp add: acceptStyles_columns)
qed

lemma runAICommand_columns_rejected:
  assumes "processWithAI jsonParse response = Inr result"
    and "updatedRows result = None \<or>
         (\<exists>urows. updatedRows result = Some urows \<and> filter (\<lambda>r. r \<noteq> None) urows = [])"
  shows "columns (sheetData (runAICommand jsonParse response now st)) = columns (sheetData st)"
proof -
  have "columns (fst (acceptStyles result (acceptRows result (sheetData st)))) = columns (sheetData st)"
    using acceptRows_rejected [OF assms(2)] by (simp add: acceptStyles_columns)
  then show ?thesis
    using runAICommand_sheet(1) [OF assms(1), of now st] by simp
qed

text \<open>
  C9. When the assistant's answer carries new column labels and a replacement row set that
  is not empty once its \<^verbatim>\<open>null\<close> rows are filtered out, the new column list is
  \<^verbatim>\<open>[...new Set([...columns, ...newColumns])]\<close>: no label is in it twice, it holds the old and
  the new labels, and it starts with the old column list when that has no label twice.
  Without such a row set the new labels are dropped and the column list stays.
\<close>

theorem new_columns_appended:
  assumes "processWithAI jsonParse response = Inr result" and "newColumns result = Some ncs"
  shows
    "(\<forall>urows. updatedRows result = Some urows \<and> filter (\<lambda>r. r \<noteq> None) urows \<noteq> [] \<longrightarrow>
        columns (sheetData (runAICommand jsonParse response now st)) =
          setOf (columns (sheetData st) @ ncs) \<and>
        distinct (columns (sheetData (runAICommand jsonParse response now st))) \<and>
        set (columns (sheetData (runAICommand jsonParse response now st))) =
          set (columns (sheetData st)) \<union> set ncs \<and>
        (distinct (columns (sheetData st)) \<longrightarrow>
           (\<exists>ys. columns (sheetData (runAICommand jsonParse response now st)) =
                   columns (sheetData st) @ ys \<and>
                 set ys = set ncs - set (columns (sheetData st))))) \<and>
     (updatedRows result = None \<or>
      (\<exists>urows. updatedRows result = Some urows \<and> filter (\<lambda>r. r \<noteq> None) urows = []) \<longrightarrow>
        columns (sheetData (runAICommand jsonParse response now st)) = columns (sheetData st))"
proof -
  have accepted:
    "columns (sheetData (runAICommand jsonParse response now st)) = setOf (columns (sheetData st) @ ncs)"
    if "updatedRows result = Some urows" "filter (\<lambda>r. r \<noteq> None) urows \<noteq> []" for urows
    using assms that by (rule runAICommand_columns_accepted)
  have rejected:
    "columns (sheetData (runAICommand jsonParse response now st)) = columns (sheetData st)"
    if "updatedRows result = None \<or>
        (\<exists>urows. updatedRows result = Some urows \<and> filter (\<lambda>r. r \<noteq> None) urows = [])"
    using assms(1) that by (rule runAICommand_columns_rejected)
  show ?thesis
    using accepted rejected setOf_distinct [of "columns (sheetData st) @ ncs"]
      setOf_set [of "columns (sheetData st) @ ncs"]
      setOf_append [of "columns (sheetData st)" ncs]
    by (simp add: Un_commute)
qed

lemma exampleParse_texts:
  "exampleParse columnsOnlyText = Some (emptyRaw\<lparr>raw_newColumns := Some [''X'']\<rparr>)"
  "exampleParse rowsAndColumnsText =
     Some (emptyRaw\<lparr>raw_updatedRows := Some [Some [''A'' \<mapsto> VStr ''1''], None],
                    raw_newColumns := Some [''A'', ''X'', ''X'']\<rparr>)"
  "columnsOnlyText \<noteq> []" "rowsAndColumnsText \<noteq> []"
  by (simp_all add: exampleParse_def columnsOnlyText_def rowsAndColumnsText_def quoted_def)

lemma setOf_example: "setOf [''A'', ''B'', ''C'', ''A'', ''X'', ''X''] = [''A'', ''B'', ''C'', ''X'']"
  by (simp add: setOf_def setAdd_def)

theorem new_columns_appended_witness:
  "columns (sheetData (runAICommand exampleParse (Resolved (Some rowsAndColumnsText)) 0 exampleState)) =
     [''A'', ''B'', ''C'', ''X''] \<and>
   distinct (columns (sheetData
     (runAICommand exampleParse (Resolved (Some rowsAndColumnsText)) 0 exampleState)))"
proof -
  let ?result = "\<lparr>updatedRows = Some [Some [''A'' \<mapsto> VStr ''1'']], updatedStyles = None,
      insight = None, newColumns = Some [''A'', ''X'', ''X''], chartData = None,
      chartType = None\<rparr> :: nat AIProcessingResult"
  have p: "processWithAI exampleParse (Resolved (Some rowsAndColumnsText)) = Inr ?result"
    by (simp add: processWithAI_def exampleParse_texts emptyRaw_def)
  have c: "columns (sheetData exampleState) = [''A'', ''B'', ''C'']"
    by (simp add: exampleState_fields) (simp add: exampleSheet_def)
  from new_columns_appended [OF p, of "[''A'', ''X'', ''X'']" 0 exampleState]
  show ?thesis by (simp add: c setOf_example)
qed

text \<open>
  An answer with new column labels and no rows leaves the column list as it is: the label
  \<open>X\<close> is not appended.
\<close>

theorem new_columns_dropped_counterexample:
  "columns (sheetData (runAICommand exampleParse (Resolved (Some columnsOnlyText)) 0 exampleState)) =
     [''A'', ''B'', ''C'']"
proof -
  let ?result = "\<lparr>updatedRows = None, updatedStyles = None,
      insight = None, newColumns = Some [''X''], chartData = None,
      chartType = None\<rparr> :: nat AIProcessingResult"
  have p: "processWithAI exampleParse (Resolved (Some columnsOnlyText)) = Inr ?result"
    by (simp add: processWithAI_def exampleParse_texts emptyRaw_def)
  have c: "columns (sheetData exampleState) = [''A'', ''B'', ''C'']"
    by (simp add: exampleState_fields) (simp add: exampleSheet_def)
  from runAICommand_columns_rejected [OF p, of 0 exampleState]
  show ?thesis by (simp add: c)
qed

end
